theory Spec2Isabelle
  imports Complex_Main "HOL-Library.Sublist" "HOL-Library.AList"
begin

section \<open>The GA4 page-view synchronisation of ArticleSearch\<close>

text \<open>
  This theory embeds \<^verbatim>\<open>src/functions/ga4-sync/main.py\<close> (class \<^verbatim>\<open>GA4DataSync\<close>):
  the URL normaliser, the mapping loader, the tiered fetcher, the reconciler, the batch
  update dispatcher and the pipeline that runs them in sequence.

  Python's \<^verbatim>\<open>str\<close> is modelled as \<^typ>\<open>string\<close>, Python's unbounded integers as
  \<^typ>\<open>int\<close>, exceptions as the left summand of a sum type, a \<^verbatim>\<open>dict\<close> as an association
  list with distinct keys in insertion order.
\<close>

subsection \<open>Exceptions\<close>

datatype py_error = ValueError | TimeoutError | RemoteError | IndexError

subsection \<open>String methods of Python used by the code\<close>

text \<open>\<^verbatim>\<open>s.lstrip(chars)\<close>, \<^verbatim>\<open>s.rstrip(chars)\<close> and \<^verbatim>\<open>s.strip(chars)\<close>.\<close>

definition py_lstrip :: "string \<Rightarrow> string \<Rightarrow> string" where
  "py_lstrip chars s = dropWhile (\<lambda>c. c \<in> set chars) s"

definition py_rstrip :: "string \<Rightarrow> string \<Rightarrow> string" where
  "py_rstrip chars s = rev (dropWhile (\<lambda>c. c \<in> set chars) (rev s))"

definition py_strip :: "string \<Rightarrow> string \<Rightarrow> string" where
  "py_strip chars s = py_rstrip chars (py_lstrip chars s)"

text \<open>\<^verbatim>\<open>s.replace(b, "")\<close> for a one-character string \<^verbatim>\<open>b\<close>.\<close>

definition py_remove :: "char \<Rightarrow> string \<Rightarrow> string" where
  "py_remove b s = filter (\<lambda>c. c \<noteq> b) s"

text \<open>\<^verbatim>\<open>s.find(c)\<close> for a one-character \<^verbatim>\<open>c\<close>: \<open>None\<close> stands for Python's \<open>-1\<close>.\<close>

definition py_find :: "char \<Rightarrow> string \<Rightarrow> nat option" where
  "py_find c s = (if c \<in> set s then Some (length (takeWhile (\<lambda>x. x \<noteq> c) s)) else None)"

text \<open>\<^verbatim>\<open>s.find(c, start)\<close> and \<^verbatim>\<open>s.rfind(c)\<close>.\<close>

definition py_find_from :: "char \<Rightarrow> nat \<Rightarrow> string \<Rightarrow> nat option" where
  "py_find_from c start s = map_option (\<lambda>i. start + i) (py_find c (drop start s))"

definition py_rfind :: "char \<Rightarrow> string \<Rightarrow> nat option" where
  "py_rfind c s =
     (if c \<in> set s then Some (length s - 1 - length (takeWhile (\<lambda>x. x \<noteq> c) (rev s))) else None)"

text \<open>\<^verbatim>\<open>s.split(c, 1)\<close> when \<^verbatim>\<open>c in s\<close>, and \<^verbatim>\<open>s.partition(c)\<close>.\<close>

definition py_split1 :: "char \<Rightarrow> string \<Rightarrow> string \<times> string" where
  "py_split1 c s = (takeWhile (\<lambda>x. x \<noteq> c) s, drop 1 (dropWhile (\<lambda>x. x \<noteq> c) s))"

definition py_partition :: "char \<Rightarrow> string \<Rightarrow> string \<times> bool \<times> string" where
  "py_partition c s = (takeWhile (\<lambda>x. x \<noteq> c) s, c \<in> set s, drop 1 (dropWhile (\<lambda>x. x \<noteq> c) s))"

text \<open>The last component of \<^verbatim>\<open>s.rpartition(c)\<close>: what follows the last \<^verbatim>\<open>c\<close>.\<close>

definition py_rpartition_last :: "char \<Rightarrow> string \<Rightarrow> string" where
  "py_rpartition_last c s = rev (takeWhile (\<lambda>x. x \<noteq> c) (rev s))"

definition py_isascii :: "string \<Rightarrow> bool" where
  "py_isascii s = list_all (\<lambda>c. (of_char c :: nat) < 128) s"

definition ascii_isalpha :: "char \<Rightarrow> bool" where
  "ascii_isalpha c =
     (let n = (of_char c :: nat) in (97 \<le> n \<and> n \<le> 122) \<or> (65 \<le> n \<and> n \<le> 90))"

definition ascii_lower :: "char \<Rightarrow> char" where
  "ascii_lower c =
     (let n = (of_char c :: nat) in if 65 \<le> n \<and> n \<le> 90 then char_of (n + 32) else c)"

text \<open>
  \<^verbatim>\<open>str.isspace\<close> on the code points below 256, for \<^verbatim>\<open>s.strip()\<close> without argument.
\<close>

definition py_isspace :: "char \<Rightarrow> bool" where
  "py_isspace c =
     (let n = (of_char c :: nat)
      in (9 \<le> n \<and> n \<le> 13) \<or> (28 \<le> n \<and> n \<le> 32) \<or> n = 133 \<or> n = 160)"

definition py_strip_ws :: "string \<Rightarrow> string" where
  "py_strip_ws s = rev (dropWhile py_isspace (rev (dropWhile py_isspace s)))"

subsection \<open>The URL parser of Python's standard library\<close>

text \<open>
  \<^verbatim>\<open>normalize_ga4_url\<close> calls \<^verbatim>\<open>urllib.parse.urlparse\<close>. The functions below follow
  \<^verbatim>\<open>urllib/parse.py\<close> of CPython 3.12 line by line, for \<^verbatim>\<open>str\<close> arguments and the
  default arguments \<^verbatim>\<open>scheme=''\<close>, \<^verbatim>\<open>allow_fragments=True\<close>. Two things the parser
  takes from other modules are parameters of the model: Unicode's NFKC normalisation
  (\<^verbatim>\<open>unicodedata.normalize\<close>) and the check of a bracketed host
  (\<^verbatim>\<open>_check_bracketed_host\<close>, which parses IP addresses).
\<close>

record pylib =
  nfkc :: "string \<Rightarrow> string"
  check_bracketed_host :: "string \<Rightarrow> bool"

record split_result =
  sr_scheme :: string
  sr_netloc :: string
  sr_path :: string
  sr_query :: string
  sr_fragment :: string

record parse_result =
  scheme :: string
  netloc :: string
  path :: string
  params :: string
  query :: string
  fragment :: string

definition uses_params :: "string list" where
  "uses_params = [ [], ''ftp'', ''hdl'', ''prospero'', ''http'', ''imap'',
                  ''https'', ''shttp'', ''rtsp'', ''rtsps'', ''rtspu'', ''sip'',
                  ''sips'', ''mms'', ''sftp'', ''tel'']"

definition scheme_chars :: string where
  "scheme_chars = ''abcdefghijklmnopqrstuvwxyz'' @ ''ABCDEFGHIJKLMNOPQRSTUVWXYZ''
                  @ ''0123456789'' @ ''+-.''"

text \<open>\<^verbatim>\<open>_WHATWG_C0_CONTROL_OR_SPACE\<close>: the code points 0 to 32.\<close>

definition whatwg_c0_control_or_space :: string where
  "whatwg_c0_control_or_space = map char_of [0 ..< (33::nat)]"

text \<open>\<^verbatim>\<open>_UNSAFE_URL_BYTES_TO_REMOVE\<close>: tab, carriage return, line feed.\<close>

definition unsafe_url_bytes_to_remove :: string where
  "unsafe_url_bytes_to_remove = [CHR 0x09, CHR 0x0D, CHR 0x0A]"

definition splitnetloc :: "string \<Rightarrow> nat \<Rightarrow> string \<times> string" where
  "splitnetloc url start =
     (let delim = fold (\<lambda>c d. case py_find_from c start url of
                                  None \<Rightarrow> d
                                | Some wdelim \<Rightarrow> min d wdelim)
                       ''/?#'' (length url)
      in (drop start (take delim url), drop delim url))"

definition checknetloc :: "pylib \<Rightarrow> string \<Rightarrow> py_error + unit" where
  "checknetloc lib nl =
     (if nl = [] \<or> py_isascii nl then Inr ()
      else
        let n = py_remove (CHR ''?'') (py_remove (CHR ''#'')
                  (py_remove (CHR '':'') (py_remove (CHR ''@'') nl)));
            netloc2 = nfkc lib n
        in if n = netloc2 then Inr ()
           else if list_ex (\<lambda>c. c \<in> set netloc2) ''/?#@:'' then Inl ValueError
           else Inr ())"

definition check_bracketed_netloc :: "pylib \<Rightarrow> string \<Rightarrow> py_error + unit" where
  "check_bracketed_netloc lib nl =
     (let hostname_and_port = py_rpartition_last (CHR ''@'') nl;
          (before_bracket, have_open_br, bracketed) = py_partition (CHR ''['') hostname_and_port
      in if have_open_br then
           (if before_bracket \<noteq> [] then Inl ValueError
            else
              let (hostname, sep, port) = py_partition (CHR '']'') bracketed
              in if port \<noteq> [] \<and> \<not> prefix '':'' port then Inl ValueError
                 else if check_bracketed_host lib hostname then Inr () else Inl ValueError)
         else
           (let (hostname, sep, port) = py_partition (CHR '':'') hostname_and_port
            in if check_bracketed_host lib hostname then Inr () else Inl ValueError))"

text \<open>The scheme part of \<^verbatim>\<open>urlsplit\<close>: returns the scheme and the rest of the URL.\<close>

definition urlsplit_scheme :: "string \<Rightarrow> string \<times> string" where
  "urlsplit_scheme url =
     (case py_find (CHR '':'') url of
        None \<Rightarrow> ([], url)
      | Some i \<Rightarrow>
          if 0 < i \<and> py_isascii [hd url] \<and> ascii_isalpha (hd url)
             \<and> list_all (\<lambda>c. c \<in> set scheme_chars) (take i url)
          then (map ascii_lower (take i url), drop (i + 1) url)
          else ([], url))"

text \<open>The network-location part of \<^verbatim>\<open>urlsplit\<close>, with its two bracket checks.\<close>

definition urlsplit_netloc :: "pylib \<Rightarrow> string \<Rightarrow> py_error + (string \<times> string)" where
  "urlsplit_netloc lib url =
     (if take 2 url = ''//'' then
        (let (nl, rest) = splitnetloc url 2
         in if (CHR ''['' \<in> set nl \<and> CHR '']'' \<notin> set nl)
               \<or> (CHR '']'' \<in> set nl \<and> CHR ''['' \<notin> set nl) then Inl ValueError
            else if CHR ''['' \<in> set nl \<and> CHR '']'' \<in> set nl then
              (case check_bracketed_netloc lib nl of
                 Inl e \<Rightarrow> Inl e
               | Inr u \<Rightarrow> Inr (nl, rest))
            else Inr (nl, rest))
      else Inr ([], url))"

definition urlsplit :: "pylib \<Rightarrow> string \<Rightarrow> py_error + split_result" where
  "urlsplit lib url0 =
     (let url1 = py_lstrip whatwg_c0_control_or_space url0;
          url2 = fold py_remove unsafe_url_bytes_to_remove url1;
          (sch, url3) = urlsplit_scheme url2
      in case urlsplit_netloc lib url3 of
           Inl e \<Rightarrow> Inl e
         | Inr (nl, url4) \<Rightarrow>
             let (url5, frag) = (if CHR ''#'' \<in> set url4 then py_split1 (CHR ''#'') url4
                                 else (url4, []));
                 (url6, qry) = (if CHR ''?'' \<in> set url5 then py_split1 (CHR ''?'') url5
                                else (url5, []))
             in (case checknetloc lib nl of
                   Inl e \<Rightarrow> Inl e
                 | Inr u \<Rightarrow> Inr \<lparr>sr_scheme = sch, sr_netloc = nl, sr_path = url6,
                                 sr_query = qry, sr_fragment = frag\<rparr>))"

definition splitparams :: "string \<Rightarrow> string \<times> string" where
  "splitparams url =
     (if CHR ''/'' \<in> set url then
        (case py_find_from (CHR '';'') (the (py_rfind (CHR ''/'') url)) url of
           None \<Rightarrow> (url, [])
         | Some i \<Rightarrow> (take i url, drop (i + 1) url))
      else
        (case py_find (CHR '';'') url of
           None \<Rightarrow> (butlast url, url)
         | Some i \<Rightarrow> (take i url, drop (i + 1) url)))"

definition urlparse :: "pylib \<Rightarrow> string \<Rightarrow> py_error + parse_result" where
  "urlparse lib url =
     (case urlsplit lib url of
        Inl e \<Rightarrow> Inl e
      | Inr sr \<Rightarrow>
          let (u, ps) = (if sr_scheme sr \<in> set uses_params \<and> CHR '';'' \<in> set (sr_path sr)
                         then splitparams (sr_path sr) else (sr_path sr, []))
          in Inr \<lparr>scheme = sr_scheme sr, netloc = sr_netloc sr, path = u, params = ps,
                  query = sr_query sr, fragment = sr_fragment sr\<rparr>)"

subsection \<open>UrlNormalizer: \<^verbatim>\<open>normalize_ga4_url\<close>\<close>

text \<open>
  The body of the \<^verbatim>\<open>try\<close> block. An exception of \<^verbatim>\<open>urlparse\<close> is the value \<open>Inl\<close>;
  \<open>Inr None\<close> is \<^verbatim>\<open>return None\<close>.
\<close>

definition normalize_ga4_url_try :: "pylib \<Rightarrow> string \<Rightarrow> py_error + string option" where
  "normalize_ga4_url_try lib url =
     (case urlparse lib url of
        Inl e \<Rightarrow> Inl e
      | Inr parsed_url \<Rightarrow>
          if netloc parsed_url \<noteq> ''www.foresight.jp'' then Inr None
          else
            let p = py_strip ''/'' (path parsed_url)
            in if \<not> sublist ''/column/'' p then Inr None
               else Inr (Some (if p \<noteq> [] \<and> \<not> suffix ''/'' p then p @ ''/'' else p)))"

text \<open>
  The function itself: \<^verbatim>\<open>if not url: return None\<close>, then the \<^verbatim>\<open>try\<close> block, whose
  \<^verbatim>\<open>except Exception\<close> clause returns \<^verbatim>\<open>None\<close>.
\<close>

definition normalize_ga4_url :: "pylib \<Rightarrow> string \<Rightarrow> py_error + string option" where
  "normalize_ga4_url lib url =
     (if url = [] then Inr None
      else case normalize_ga4_url_try lib url of
             Inl e \<Rightarrow> Inr None
           | Inr r \<Rightarrow> Inr r)"

text \<open>
  The two library functions for evaluating the model on ASCII inputs without bracketed
  hosts: on ASCII text NFKC normalisation is the identity; the check of a bracketed host
  is never reached on such inputs and is set to fail.
\<close>

definition ascii_lib :: pylib where
  "ascii_lib = \<lparr>nfkc = (\<lambda>s. s), check_bracketed_host = (\<lambda>h. False)\<rparr>"



text \<open>
  The characters that never occur in the path component returned by \<^verbatim>\<open>urlparse\<close>:
  the fragment and query delimiters, which end the path, and tab, carriage return and line
  feed, which \<^verbatim>\<open>urlsplit\<close> removes from its input first.
\<close>

definition bad_chars :: "char set" where
  "bad_chars = {CHR ''#'', CHR ''?'', CHR 0x09, CHR 0x0D, CHR 0x0A}"

subsection \<open>Data\<close>

text \<open>
  The aggregates of one URL (a row of a GA4 query, and the entry of \<^verbatim>\<open>path_metrics\<close>
  that sums such rows). The numbers are Python integers.
\<close>

record metrics =
  pageviews :: int
  organic_sessions :: int
  engaged_sessions :: int
  total_engagement_time_msec :: int
  total_sessions :: int

record ga4_item = metrics +
  page_location :: string

text \<open>
  A row of the mapping query and the value stored in the mapping under its pattern: both
  carry the same fields (in the stored value \<^verbatim>\<open>article_link\<close> is the normalised link).
  The average engagement time is a number of seconds; it is modelled as an exact rational.
\<close>

record article_info =
  article_id :: string
  course_slug :: string
  article_link :: string
  article_title :: string
  current_pageviews :: int
  current_organic_sessions :: int
  current_engaged_sessions :: int
  current_avg_engagement_time :: rat

text \<open>
  An element of \<^verbatim>\<open>pageviews_updates\<close>. The fields are those of the dictionary built in
  \<^verbatim>\<open>match_urls_and_aggregate_optimized\<close>, with the prefix \<open>upd_\<close>.
\<close>

record pageviews_update =
  upd_article_id :: string
  upd_pageviews :: int
  upd_organic_sessions :: int
  upd_engaged_sessions :: int
  upd_avg_engagement_time :: rat
  upd_course_slug :: string
  upd_article_title :: string

subsection \<open>Configuration and the world outside the process\<close>

text \<open>The module constants read from the environment.\<close>

record config =
  GA4_DAYS_BACK :: int
  GA4_LIMIT :: "int option"

definition BULK_INSERT_BATCH_SIZE :: nat where
  "BULK_INSERT_BATCH_SIZE = 500"

definition TIMEOUT_SECONDS :: rat where
  "TIMEOUT_SECONDS = 480"

text \<open>The three query shapes sent to the analytics warehouse: tables and \<^verbatim>\<open>LIMIT\<close>.\<close>

datatype ga4_query =
  StandardQuery "string list" "int option"
| FallbackQuery "string list" int
| MinimalQuery string int

text \<open>
  Everything the process asks of the outside, in the order it asks: the two BigQuery
  clients, \<^verbatim>\<open>time.sleep\<close>. The process keeps the list of its requests so far.
\<close>

datatype request =
  GetTable string
| SubmitQuery ga4_query
| ReadJobState
| Sleep
| CancelJob
| JobResult
| CoursesCount
| ArticlesCount
| BasicJoin
| MappingQuery
| DebugQuery
| BulkUpdate "pageviews_update list"
| IndividualUpdate pageviews_update

text \<open>
  The outside world answers each request; the answer may depend on the request and on
  how many requests came before it (the first argument of every field). A remote call
  that raises is \<open>False\<close> or \<open>Inl\<close>. The field \<open>elapsed\<close> is the reading of the clock,
  in seconds since \<^verbatim>\<open>start_time\<close>, after that many requests; \<open>table_suffix\<close> is the
  date suffix \<^verbatim>\<open>%Y%m%d\<close> of the day \<open>i\<close> days before today.
\<close>

record world =
  stdlib :: pylib
  elapsed :: "nat \<Rightarrow> rat"
  table_suffix :: "nat \<Rightarrow> string"
  table_exists :: "nat \<Rightarrow> string \<Rightarrow> bool"
  query_accepted :: "nat \<Rightarrow> ga4_query \<Rightarrow> bool"
  job_done :: "nat \<Rightarrow> bool"
  cancel_ok :: "nat \<Rightarrow> bool"
  job_rows :: "nat \<Rightarrow> py_error + ga4_item list"
  courses_count :: "nat \<Rightarrow> py_error + int list"
  articles_count :: "nat \<Rightarrow> py_error + int list"
  basic_join :: "nat \<Rightarrow> py_error + nat"
  mapping_rows :: "nat \<Rightarrow> py_error + article_info list"
  debug_rows :: "nat \<Rightarrow> py_error + nat"
  bulk_update_ok :: "nat \<Rightarrow> pageviews_update list \<Rightarrow> bool"
  individual_update_ok :: "nat \<Rightarrow> pageviews_update \<Rightarrow> bool"

type_synonym trace = "request list"

subsection \<open>TimeBudgetGuard: \<^verbatim>\<open>check_timeout\<close>\<close>

definition check_timeout :: "world \<Rightarrow> trace \<Rightarrow> bool" where
  "check_timeout w tr = (elapsed w (length tr) > TIMEOUT_SECONDS)"

subsection \<open>Reconciler: \<^verbatim>\<open>match_urls_and_aggregate_optimized\<close>\<close>

text \<open>\<^verbatim>\<open>[xs[i:i+n] for i in range(0, len(xs), n)]\<close>, for a positive \<open>n\<close>.\<close>

function batches :: "nat \<Rightarrow> 'a list \<Rightarrow> 'a list list" where
  "batches n xs = (if n = 0 \<or> xs = [] then [] else take n xs # batches n (drop n xs))"
  by pat_completeness auto
termination
  by (relation "measure (\<lambda>(n, xs). length xs)") auto

declare batches.simps [simp del]

definition zero_metrics :: metrics where
  "zero_metrics = \<lparr>pageviews = 0, organic_sessions = 0, engaged_sessions = 0,
                    total_engagement_time_msec = 0, total_sessions = 0\<rparr>"

text \<open>The five \<^verbatim>\<open>+=\<close> on the entry of a path.\<close>

definition add_metrics :: "metrics \<Rightarrow> ga4_item \<Rightarrow> metrics" where
  "add_metrics m ga4_item =
     \<lparr>pageviews = pageviews m + pageviews ga4_item,
      organic_sessions = organic_sessions m + organic_sessions ga4_item,
      engaged_sessions = engaged_sessions m + engaged_sessions ga4_item,
      total_engagement_time_msec =
        total_engagement_time_msec m + total_engagement_time_msec ga4_item,
      total_sessions = total_sessions m + total_sessions ga4_item\<rparr>"

text \<open>
  The body of the inner loop, for one row. \<^verbatim>\<open>path_metrics\<close> is a dictionary: a new key
  goes to the end, an old key keeps its place.
\<close>

definition normalize_item ::
  "pylib \<Rightarrow> (string \<times> metrics) list \<Rightarrow> ga4_item \<Rightarrow> py_error + (string \<times> metrics) list" where
  "normalize_item l path_metrics ga4_item =
     (case normalize_ga4_url l (page_location ga4_item) of
        Inl e \<Rightarrow> Inl e
      | Inr None \<Rightarrow> Inr path_metrics
      | Inr (Some normalized_path) \<Rightarrow>
          if normalized_path \<noteq> [] then
            (let pm1 = (if map_of path_metrics normalized_path = None
                        then AList.update normalized_path zero_metrics path_metrics
                        else path_metrics)
             in Inr (AList.update normalized_path
                       (add_metrics (the (map_of pm1 normalized_path)) ga4_item) pm1))
          else Inr path_metrics)"

fun normalize_batch ::
  "pylib \<Rightarrow> (string \<times> metrics) list \<Rightarrow> ga4_item list \<Rightarrow> py_error + (string \<times> metrics) list" where
  "normalize_batch l path_metrics [] = Inr path_metrics"
| "normalize_batch l path_metrics (ga4_item # batch) =
     (case normalize_item l path_metrics ga4_item of
        Inl e \<Rightarrow> Inl e
      | Inr pm \<Rightarrow> normalize_batch l pm batch)"

fun normalize_batches ::
  "pylib \<Rightarrow> (string \<times> metrics) list \<Rightarrow> ga4_item list list
     \<Rightarrow> py_error + (string \<times> metrics) list" where
  "normalize_batches l path_metrics [] = Inr path_metrics"
| "normalize_batches l path_metrics (batch # bs) =
     (case normalize_batch l path_metrics batch of
        Inl e \<Rightarrow> Inl e
      | Inr pm \<Rightarrow> normalize_batches l pm bs)"

text \<open>The average engagement time in seconds.\<close>

definition avg_engagement_time :: "metrics \<Rightarrow> rat" where
  "avg_engagement_time m =
     (if total_sessions m > 0
      then of_int (total_engagement_time_msec m) / of_int (total_sessions m * 1000)
      else 0)"

text \<open>The condition under which a matched path becomes an update.\<close>

definition differs :: "article_info \<Rightarrow> metrics \<Rightarrow> bool" where
  "differs info m =
     (let pageviews_diff = \<bar>current_pageviews info - pageviews m\<bar>;
          organic_sessions_diff = \<bar>current_organic_sessions info - organic_sessions m\<bar>;
          engaged_sessions_diff = \<bar>current_engaged_sessions info - engaged_sessions m\<bar>;
          avg_engagement_time_diff =
            \<bar>current_avg_engagement_time info - avg_engagement_time m\<bar>
      in pageviews_diff > 0 \<or> organic_sessions_diff > 0 \<or> engaged_sessions_diff > 0
         \<or> avg_engagement_time_diff > 1 / 10)"

definition make_update :: "article_info \<Rightarrow> metrics \<Rightarrow> pageviews_update" where
  "make_update info m =
     \<lparr>upd_article_id = article_id info,
      upd_pageviews = pageviews m,
      upd_organic_sessions = organic_sessions m,
      upd_engaged_sessions = engaged_sessions m,
      upd_avg_engagement_time = avg_engagement_time m,
      upd_course_slug = course_slug info,
      upd_article_title =
        (if length (article_title info) > 50 then take 50 (article_title info) @ ''...''
         else article_title info)\<rparr>"

text \<open>
  The matching loop over \<^verbatim>\<open>path_metrics.items()\<close>, with the list
  \<^verbatim>\<open>pageviews_updates\<close> it appends to.
\<close>

fun match_paths ::
  "(string \<times> article_info) list \<Rightarrow> pageviews_update list \<Rightarrow> (string \<times> metrics) list
     \<Rightarrow> pageviews_update list" where
  "match_paths url_patterns pageviews_updates [] = pageviews_updates"
| "match_paths url_patterns pageviews_updates ((normalized_path, m) # rest) =
     (case map_of url_patterns normalized_path of
        None \<Rightarrow> match_paths url_patterns pageviews_updates rest
      | Some info \<Rightarrow>
          if differs info m
          then match_paths url_patterns (pageviews_updates @ [make_update info m]) rest
          else match_paths url_patterns pageviews_updates rest)"

definition match_urls_and_aggregate_optimized ::
  "world \<Rightarrow> trace \<Rightarrow> ga4_item list \<Rightarrow> (string \<times> article_info) list
     \<Rightarrow> py_error + pageviews_update list" where
  "match_urls_and_aggregate_optimized w tr ga4_data url_patterns =
     (if check_timeout w tr then Inl TimeoutError
      else case normalize_batches (stdlib w) [] (batches 1000 ga4_data) of
             Inl e \<Rightarrow> Inl e
           | Inr path_metrics \<Rightarrow> Inr (match_paths url_patterns [] path_metrics))"

subsection \<open>ContentMappingLoader: the pattern of a row\<close>

text \<open>The link of a row, stripped of white space, with a final slash.\<close>

definition normalized_link :: "article_info \<Rightarrow> string" where
  "normalized_link row =
     (let link = py_strip_ws (article_link row)
      in if \<not> suffix ''/'' link then link @ ''/'' else link)"

definition pattern :: "article_info \<Rightarrow> string" where
  "pattern row = course_slug row @ ''/column/'' @ normalized_link row"

text \<open>The loop over the rows of the mapping query, filling the dictionary \<^verbatim>\<open>mapping\<close>.\<close>

fun build_mapping ::
  "(string \<times> article_info) list \<Rightarrow> article_info list \<Rightarrow> (string \<times> article_info) list" where
  "build_mapping mapping [] = mapping"
| "build_mapping mapping (row # rows) =
     build_mapping (AList.update (pattern row) (row\<lparr>article_link := normalized_link row\<rparr>) mapping)
       rows"

subsection \<open>Concrete inputs\<close>

text \<open>
  A world whose clock stands still and whose remote calls all succeed, and the aggregate
  and the mapping entry of the specification's scenario (the fields the scenario leaves
  open are zero).
\<close>

definition still_world :: world where
  "still_world = \<lparr>stdlib = ascii_lib, elapsed = (\<lambda>n. 0), table_suffix = (\<lambda>i. ''20250101''),
     table_exists = (\<lambda>n s. True), query_accepted = (\<lambda>n q. True), job_done = (\<lambda>n. True),
     cancel_ok = (\<lambda>n. True), job_rows = (\<lambda>n. Inr []), courses_count = (\<lambda>n. Inr [1]),
     articles_count = (\<lambda>n. Inr [1]), basic_join = (\<lambda>n. Inr 1), mapping_rows = (\<lambda>n. Inr []),
     debug_rows = (\<lambda>n. Inr 0), bulk_update_ok = (\<lambda>n b. True),
     individual_update_ok = (\<lambda>n u. True)\<rparr>"

definition intro_item :: "string \<Rightarrow> ga4_item" where
  "intro_item url = \<lparr>pageviews = 120, organic_sessions = 40, engaged_sessions = 30,
     total_engagement_time_msec = 900000, total_sessions = 30, page_location = url\<rparr>"

definition intro_info :: article_info where
  "intro_info = \<lparr>article_id = ''a1'', course_slug = ''acct'', article_link = ''intro/'',
     article_title = ''Intro'', current_pageviews = 100, current_organic_sessions = 0,
     current_engaged_sessions = 0, current_avg_engagement_time = 0\<rparr>"

subsection \<open>ContentMappingLoader: \<^verbatim>\<open>get_courses_articles_mapping_optimized\<close>\<close>

text \<open>
  A statement sent to the content warehouse (\<^verbatim>\<open>query\<close> and \<^verbatim>\<open>result\<close>) is one request;
  it raises or returns its rows. Each function below takes the requests made so far and
  returns its result with the requests made so far when it ends.

  The first \<^verbatim>\<open>try\<close> block: the two existence probes. \<^verbatim>\<open>list(result)[0]\<close> raises
  \<^verbatim>\<open>IndexError\<close> on an empty result. The value is \<open>Inr True\<close> when the block ends without
  a \<^verbatim>\<open>return\<close>, \<open>Inr False\<close> on \<^verbatim>\<open>return {}\<close> for a table without rows, \<open>Inl\<close> for an
  exception.
\<close>

definition table_probes :: "world \<Rightarrow> trace \<Rightarrow> (py_error + bool) \<times> trace" where
  "table_probes w tr =
     (let tr1 = tr @ [CoursesCount]
      in case courses_count w (length tr) of
           Inl e \<Rightarrow> (Inl e, tr1)
         | Inr [] \<Rightarrow> (Inl IndexError, tr1)
         | Inr (courses_cnt # cs) \<Rightarrow>
             (let tr2 = tr1 @ [ArticlesCount]
              in (case articles_count w (length tr1) of
                    Inl e \<Rightarrow> (Inl e, tr2)
                  | Inr [] \<Rightarrow> (Inl IndexError, tr2)
                  | Inr (articles_cnt # as) \<Rightarrow>
                      (Inr (\<not> (courses_cnt = 0 \<or> articles_cnt = 0)), tr2))))"

text \<open>
  The second \<^verbatim>\<open>try\<close> block: the basic join, the mapping query, the loop over its rows,
  and the debugging query when the mapping is empty.
\<close>

definition mapping_queries ::
  "world \<Rightarrow> trace \<Rightarrow> (py_error + (string \<times> article_info) list) \<times> trace" where
  "mapping_queries w tr =
     (let tr1 = tr @ [BasicJoin]
      in case basic_join w (length tr) of
           Inl e \<Rightarrow> (Inl e, tr1)
         | Inr basic_data_len \<Rightarrow>
             if basic_data_len = 0 then (Inr [], tr1)
             else
               (let tr2 = tr1 @ [MappingQuery]
                in (case mapping_rows w (length tr1) of
                      Inl e \<Rightarrow> (Inl e, tr2)
                    | Inr results \<Rightarrow>
                        (let mapping = build_mapping [] results
                         in if length mapping = 0 then
                              (let tr3 = tr2 @ [DebugQuery]
                               in (case debug_rows w (length tr2) of
                                     Inl e \<Rightarrow> (Inl e, tr3)
                                   | Inr debug_len \<Rightarrow> (Inr mapping, tr3)))
                            else (Inr mapping, tr2)))))"

text \<open>Both \<^verbatim>\<open>except Exception\<close> clauses return the empty mapping.\<close>

definition get_courses_articles_mapping_optimized ::
  "world \<Rightarrow> trace \<Rightarrow> (py_error + (string \<times> article_info) list) \<times> trace" where
  "get_courses_articles_mapping_optimized w tr =
     (if check_timeout w tr then (Inl TimeoutError, tr)
      else case table_probes w tr of
             (Inl e, tr1) \<Rightarrow> (Inr [], tr1)
           | (Inr False, tr1) \<Rightarrow> (Inr [], tr1)
           | (Inr True, tr1) \<Rightarrow>
               (case mapping_queries w tr1 of
                  (Inl e, tr2) \<Rightarrow> (Inr [], tr2)
                | (Inr mapping, tr2) \<Rightarrow> (Inr mapping, tr2)))"

subsection \<open>TieredMetricsFetcher\<close>

text \<open>\<^verbatim>\<open>xs[:k]\<close> for a Python integer \<open>k\<close>: a negative \<open>k\<close> counts from the end.\<close>

definition py_take :: "int \<Rightarrow> 'a list \<Rightarrow> 'a list" where
  "py_take k xs = (if 0 \<le> k then take (nat k) xs else take (length xs - nat (- k)) xs)"

text \<open>
  \<^verbatim>\<open>get_available_ga4_tables\<close>: the loop over \<^verbatim>\<open>range(days_back)\<close>, one metadata probe
  for each day.
\<close>

fun probe_tables :: "world \<Rightarrow> trace \<Rightarrow> string list \<Rightarrow> nat list \<Rightarrow> string list \<times> trace" where
  "probe_tables w tr available_tables [] = (available_tables, tr)"
| "probe_tables w tr available_tables (i # days) =
     (let tbl = table_suffix w i;
          tr1 = tr @ [GetTable tbl]
      in if table_exists w (length tr) tbl
         then probe_tables w tr1 (available_tables @ [tbl]) days
         else probe_tables w tr1 available_tables days)"

definition get_available_ga4_tables :: "world \<Rightarrow> trace \<Rightarrow> int \<Rightarrow> string list \<times> trace" where
  "get_available_ga4_tables w tr days_back = probe_tables w tr [] [0 ..< nat days_back]"

text \<open>
  The polling loop of the first two tiers: \<^verbatim>\<open>while query_job.state != 'DONE'\<close>, with the
  ceiling \<open>limit\<close> on \<^verbatim>\<open>timeout_count\<close> (10, then 8). Past the ceiling the job is
  cancelled and \<^verbatim>\<open>TimeoutError\<close> is raised; a failing \<^verbatim>\<open>cancel\<close> raises its own error.
\<close>

function poll_job :: "world \<Rightarrow> trace \<Rightarrow> nat \<Rightarrow> nat \<Rightarrow> (py_error + unit) \<times> trace" where
  "poll_job w tr limit timeout_count =
     (let tr1 = tr @ [ReadJobState]
      in if job_done w (length tr) then (Inr (), tr1)
         else if timeout_count > limit then
           (if cancel_ok w (length tr1) then (Inl TimeoutError, tr1 @ [CancelJob])
            else (Inl RemoteError, tr1 @ [CancelJob]))
         else poll_job w (tr1 @ [Sleep]) limit (timeout_count + 1))"
  by pat_completeness auto
termination
  by (relation "measure (\<lambda>(w, tr, limit, timeout_count). Suc limit - timeout_count)") auto

declare poll_job.simps [simp del]

text \<open>The \<^verbatim>\<open>try\<close> block of the first two tiers: submit, poll, fetch the rows.\<close>

definition run_polled_query ::
  "world \<Rightarrow> trace \<Rightarrow> ga4_query \<Rightarrow> nat \<Rightarrow> (py_error + ga4_item list) \<times> trace" where
  "run_polled_query w tr q limit =
     (let tr1 = tr @ [SubmitQuery q]
      in if \<not> query_accepted w (length tr) q then (Inl RemoteError, tr1)
         else case poll_job w tr1 limit 0 of
                (Inl e, tr2) \<Rightarrow> (Inl e, tr2)
              | (Inr u, tr2) \<Rightarrow> (job_rows w (length tr2), tr2 @ [JobResult]))"

text \<open>\<^verbatim>\<open>get_ga4_pageviews_minimal\<close>: one blocking call, no polling.\<close>

definition get_ga4_pageviews_minimal ::
  "world \<Rightarrow> config \<Rightarrow> trace \<Rightarrow> string option \<Rightarrow> ga4_item list \<times> trace" where
  "get_ga4_pageviews_minimal w cfg tr table_opt =
     (case table_opt of
        None \<Rightarrow> ([], tr)
      | Some tbl \<Rightarrow>
          if tbl = [] then ([], tr)
          else
            (let minimal_limit = (case GA4_LIMIT cfg of None \<Rightarrow> 500 | Some l \<Rightarrow> l);
                 q = MinimalQuery tbl minimal_limit;
                 tr1 = tr @ [SubmitQuery q]
             in if \<not> query_accepted w (length tr) q then ([], tr1)
                else (case job_rows w (length tr1) of
                        Inl e \<Rightarrow> ([], tr1 @ [JobResult])
                      | Inr pageviews_data \<Rightarrow> (pageviews_data, tr1 @ [JobResult]))))"

text \<open>\<^verbatim>\<open>get_ga4_pageviews_multi_table_fallback\<close>.\<close>

definition get_ga4_pageviews_multi_table_fallback ::
  "world \<Rightarrow> config \<Rightarrow> trace \<Rightarrow> string list \<Rightarrow> ga4_item list \<times> trace" where
  "get_ga4_pageviews_multi_table_fallback w cfg tr available_tables =
     (if available_tables = [] then ([], tr)
      else
        (let tables_to_use = py_take (max 3 (GA4_DAYS_BACK cfg)) available_tables;
             fallback_limit = (case GA4_LIMIT cfg of None \<Rightarrow> 2000 | Some l \<Rightarrow> l)
         in case run_polled_query w tr (FallbackQuery tables_to_use fallback_limit) 8 of
              (Inr pageviews_data, tr1) \<Rightarrow> (pageviews_data, tr1)
            | (Inl e, tr1) \<Rightarrow>
                get_ga4_pageviews_minimal w cfg tr1
                  (if available_tables \<noteq> [] then Some (hd available_tables) else None)))"

text \<open>\<^verbatim>\<open>get_ga4_pageviews_optimized\<close>, called with \<^verbatim>\<open>days_back\<close> given.\<close>

definition get_ga4_pageviews_optimized ::
  "world \<Rightarrow> config \<Rightarrow> trace \<Rightarrow> int \<Rightarrow> (py_error + ga4_item list) \<times> trace" where
  "get_ga4_pageviews_optimized w cfg tr days_back =
     (if check_timeout w tr then (Inl TimeoutError, tr)
      else
        (let (available_tables, tr1) = get_available_ga4_tables w tr (days_back + 2)
         in if available_tables = [] then (Inr [], tr1)
            else
              (let tables_to_use = py_take days_back available_tables
               in if tables_to_use = [] then (Inr [], tr1)
                  else (case run_polled_query w tr1
                               (StandardQuery tables_to_use (GA4_LIMIT cfg)) 10 of
                          (Inr pageviews_data, tr2) \<Rightarrow> (Inr pageviews_data, tr2)
                        | (Inl e, tr2) \<Rightarrow>
                            (let (pageviews_data, tr3) =
                                   get_ga4_pageviews_multi_table_fallback w cfg tr2
                                     (py_take (GA4_DAYS_BACK cfg) available_tables)
                             in (Inr pageviews_data, tr3))))))"

subsection \<open>BatchUpdateDispatcher\<close>

text \<open>
  \<^verbatim>\<open>update_pageviews_individual_optimized\<close>: the loop, with its counter
  \<^verbatim>\<open>updated_count\<close>. The function returns nothing; the model returns the counter that it
  logs at the end.
\<close>

fun update_pageviews_individual_loop ::
  "world \<Rightarrow> trace \<Rightarrow> nat \<Rightarrow> pageviews_update list \<Rightarrow> nat \<times> trace" where
  "update_pageviews_individual_loop w tr updated_count [] = (updated_count, tr)"
| "update_pageviews_individual_loop w tr updated_count (upd # rest) =
     (if check_timeout w tr then (updated_count, tr)
      else
        (let tr1 = tr @ [IndividualUpdate upd]
         in if individual_update_ok w (length tr) upd
            then update_pageviews_individual_loop w tr1 (updated_count + 1) rest
            else update_pageviews_individual_loop w tr1 updated_count rest))"

definition update_pageviews_individual_optimized ::
  "world \<Rightarrow> trace \<Rightarrow> pageviews_update list \<Rightarrow> nat \<times> trace" where
  "update_pageviews_individual_optimized w tr pageviews_updates =
     update_pageviews_individual_loop w tr 0 pageviews_updates"

text \<open>
  The loop of \<^verbatim>\<open>update_pageviews_batch_optimized\<close> over the batches, with its counter
  \<^verbatim>\<open>total_updated\<close>.
\<close>

fun update_batches ::
  "world \<Rightarrow> trace \<Rightarrow> nat \<Rightarrow> pageviews_update list list \<Rightarrow> nat \<times> trace" where
  "update_batches w tr total_updated [] = (total_updated, tr)"
| "update_batches w tr total_updated (batch # bs) =
     (let tr1 = tr @ [BulkUpdate batch]
      in if bulk_update_ok w (length tr) batch
         then update_batches w tr1 (total_updated + length batch) bs
         else
           (let (updated_count, tr2) = update_pageviews_individual_optimized w tr1 batch
            in update_batches w tr2 (total_updated + length batch) bs))"

text \<open>
  \<^verbatim>\<open>update_pageviews_batch_optimized\<close>. The function returns nothing; the model returns
  \<open>None\<close> for the early \<^verbatim>\<open>return\<close> and otherwise the value of \<^verbatim>\<open>total_updated\<close> that it
  logs at the end.
\<close>

definition update_pageviews_batch_optimized ::
  "world \<Rightarrow> trace \<Rightarrow> pageviews_update list \<Rightarrow> (py_error + nat option) \<times> trace" where
  "update_pageviews_batch_optimized w tr pageviews_updates =
     (if pageviews_updates = [] then (Inr None, tr)
      else if check_timeout w tr then (Inl TimeoutError, tr)
      else
        (let (total_updated, tr1) =
               update_batches w tr 0 (batches BULK_INSERT_BATCH_SIZE pageviews_updates)
         in (Inr (Some total_updated), tr1)))"

text \<open>
  The updates that the content warehouse has carried out: those of the bulk statements and
  of the individual statements that did not raise. The \<open>n\<close>-th request of a list of
  requests is answered by the world at position \<open>n\<close>.
\<close>

fun applied_from :: "world \<Rightarrow> nat \<Rightarrow> trace \<Rightarrow> pageviews_update list" where
  "applied_from w n [] = []"
| "applied_from w n (BulkUpdate batch # rs) =
     (if bulk_update_ok w n batch then batch else []) @ applied_from w (Suc n) rs"
| "applied_from w n (IndividualUpdate upd # rs) =
     (if individual_update_ok w n upd then [upd] else []) @ applied_from w (Suc n) rs"
| "applied_from w n (r # rs) = applied_from w (Suc n) rs"

definition applied :: "world \<Rightarrow> trace \<Rightarrow> pageviews_update list" where
  "applied w tr = applied_from w 0 tr"

text \<open>
  The requests that the dispatcher is to make for a list of batches when the time budget
  is never exceeded: one bulk statement for each batch and, where the bulk statement
  raises, one individual statement for each update of the batch, in order.
\<close>

fun dispatch_requests :: "world \<Rightarrow> nat \<Rightarrow> pageviews_update list list \<Rightarrow> trace" where
  "dispatch_requests w n [] = []"
| "dispatch_requests w n (batch # bs) =
     (let rs = BulkUpdate batch
                 # (if bulk_update_ok w n batch then [] else map IndividualUpdate batch)
      in rs @ dispatch_requests w (n + length rs) bs)"

subsection \<open>The pipeline: \<^verbatim>\<open>sync_pageviews_optimized\<close>\<close>

text \<open>
  The dictionary that the pipeline returns. A key that the dictionary does not have is
  \<open>None\<close>. Under \<^verbatim>\<open>error\<close> the two fixed messages are kept as text; for the two
  \<^verbatim>\<open>except\<close> clauses the model keeps the exception in place of its message.
\<close>

datatype error_info = Message string | Raised py_error

record sync_result =
  status :: string
  error :: "error_info option"
  total_ga4_records :: "nat option"
  mapped_articles :: "nat option"
  updated_records :: "nat option"
  execution_time_seconds :: "rat option"

definition failed_result :: "string \<Rightarrow> sync_result" where
  "failed_result msg =
     \<lparr>status = ''failed'', error = Some (Message msg), total_ga4_records = None,
      mapped_articles = None, updated_records = None, execution_time_seconds = None\<rparr>"

text \<open>The two \<^verbatim>\<open>except\<close> clauses of the pipeline.\<close>

definition raised_result :: "world \<Rightarrow> trace \<Rightarrow> py_error \<Rightarrow> sync_result" where
  "raised_result w tr e =
     \<lparr>status = (if e = TimeoutError then ''timeout'' else ''error''),
      error = Some (Raised e), total_ga4_records = None, mapped_articles = None,
      updated_records = None, execution_time_seconds = Some (elapsed w (length tr))\<rparr>"

text \<open>Step 4 and the \<^verbatim>\<open>return\<close> of the \<^verbatim>\<open>try\<close> block.\<close>

definition sync_update_step ::
  "world \<Rightarrow> trace \<Rightarrow> (string \<times> article_info) list \<Rightarrow> ga4_item list \<Rightarrow> pageviews_update list
     \<Rightarrow> sync_result \<times> trace" where
  "sync_update_step w tr mapping ga4_data pageviews_updates =
     (let (r, tr1) = (if pageviews_updates \<noteq> []
                      then update_pageviews_batch_optimized w tr pageviews_updates
                      else (Inr None, tr))
      in case r of
           Inl e \<Rightarrow> (raised_result w tr1 e, tr1)
         | Inr logged_total \<Rightarrow>
             (\<lparr>status = ''success'', error = None,
               total_ga4_records = Some (length ga4_data),
               mapped_articles = Some (length mapping),
               updated_records = Some (length pageviews_updates),
               execution_time_seconds = Some (elapsed w (length tr1))\<rparr>, tr1))"

definition sync_pageviews_optimized :: "world \<Rightarrow> config \<Rightarrow> trace \<Rightarrow> sync_result \<times> trace" where
  "sync_pageviews_optimized w cfg tr =
     (case get_courses_articles_mapping_optimized w tr of
        (Inl e, tr1) \<Rightarrow> (raised_result w tr1 e, tr1)
      | (Inr mapping, tr1) \<Rightarrow>
          if mapping = [] then (failed_result ''No mapping data'', tr1)
          else
            (case get_ga4_pageviews_optimized w cfg tr1 (GA4_DAYS_BACK cfg) of
               (Inl e, tr2) \<Rightarrow> (raised_result w tr2 e, tr2)
             | (Inr ga4_data, tr2) \<Rightarrow>
                 if ga4_data = [] then (failed_result ''No GA4 data'', tr2)
                 else
                   (case match_urls_and_aggregate_optimized w tr2 ga4_data mapping of
                      Inl e \<Rightarrow> (raised_result w tr2 e, tr2)
                    | Inr pageviews_updates \<Rightarrow>
                        sync_update_step w tr2 mapping ga4_data pageviews_updates)))"

text \<open>The requests that go to the analytics warehouse, and those that write.\<close>

fun is_analytics_request :: "request \<Rightarrow> bool" where
  "is_analytics_request (GetTable s) = True"
| "is_analytics_request (SubmitQuery q) = True"
| "is_analytics_request ReadJobState = True"
| "is_analytics_request CancelJob = True"
| "is_analytics_request JobResult = True"
| "is_analytics_request r = False"

fun is_update_request :: "request \<Rightarrow> bool" where
  "is_update_request (BulkUpdate b) = True"
| "is_update_request (IndividualUpdate u) = True"
| "is_update_request r = False"

text \<open>The configuration when the environment sets neither variable.\<close>

definition default_config :: config where
  "default_config = \<lparr>GA4_DAYS_BACK = 7, GA4_LIMIT = None\<rparr>"

text \<open>
  One of the two existence probes reports zero rows: the first row of its result is the
  count 0.
\<close>

definition probe_reports_zero :: "world \<Rightarrow> trace \<Rightarrow> bool" where
  "probe_reports_zero w tr =
     (case courses_count w (length tr) of
        Inr (courses_cnt # cs) \<Rightarrow>
          courses_cnt = 0
          \<or> (case articles_count w (Suc (length tr)) of
                Inr (articles_cnt # as) \<Rightarrow> articles_cnt = 0
              | _ \<Rightarrow> False)
      | _ \<Rightarrow> False)"

text \<open>
  A world whose courses table is empty, and a world in which the content warehouse already
  holds the numbers of the scenario's aggregate, with that world's mapping entry and the
  requests that the loader and the fetcher make in it.
\<close>

definition empty_courses_world :: world where
  "empty_courses_world = still_world\<lparr>courses_count := (\<lambda>n. Inr [0])\<rparr>"

definition settled_world :: world where
  "settled_world = still_world
     \<lparr>job_rows := (\<lambda>n. Inr [intro_item ''https://www.foresight.jp/acct/column/intro/'']),
      mapping_rows := (\<lambda>n. Inr [intro_info\<lparr>current_pageviews := 120,
                                   current_organic_sessions := 40,
                                   current_engaged_sessions := 30,
                                   current_avg_engagement_time := 30\<rparr>])\<rparr>"

definition settled_info :: article_info where
  "settled_info = \<lparr>article_id = ''a1'', course_slug = ''acct'', article_link = ''intro/'',
     article_title = ''Intro'', current_pageviews = 120, current_organic_sessions = 40,
     current_engaged_sessions = 30, current_avg_engagement_time = 30\<rparr>"

definition settled_fetch_trace :: trace where
  "settled_fetch_trace = [CoursesCount, ArticlesCount, BasicJoin, MappingQuery]
     @ replicate 9 (GetTable ''20250101'')
     @ [SubmitQuery (StandardQuery (replicate 7 ''20250101'') None), ReadJobState, JobResult]"

text \<open>
  Two updates, a world in which every bulk statement raises and the individual statement
  for the article \<^verbatim>\<open>bad\<close> raises too, and the requests of the dispatcher in that world.
\<close>

definition good_update :: pageviews_update where
  "good_update = make_update intro_info
     \<lparr>pageviews = 120, organic_sessions = 40, engaged_sessions = 30,
      total_engagement_time_msec = 900000, total_sessions = 30\<rparr>"

definition bad_update :: pageviews_update where
  "bad_update = good_update\<lparr>upd_article_id := ''bad''\<rparr>"

definition rejecting_world :: world where
  "rejecting_world = still_world
     \<lparr>bulk_update_ok := (\<lambda>n batch. False),
      individual_update_ok := (\<lambda>n upd. upd_article_id upd \<noteq> ''bad'')\<rparr>"

definition rejecting_trace :: trace where
  "rejecting_trace = [BulkUpdate [good_update, bad_update],
                      IndividualUpdate good_update, IndividualUpdate bad_update]"

subsection \<open>The mapping snapshot after the updates are written\<close>

text \<open>
  The update statements write the average engagement time as \<^verbatim>\<open>{avg:.4f}\<close>: rounded to
  four decimals, a tie going to the even digit.
\<close>

definition written_avg :: "rat \<Rightarrow> rat" where
  "written_avg x =
     (let y = x * 10000;
          f = \<lfloor>y\<rfloor>;
          r = y - of_int f
      in of_int (if r < 1 / 2 then f
                 else if r > 1 / 2 then f + 1
                 else if even f then f else f + 1) / 10000)"

text \<open>
  The statement \<^verbatim>\<open>UPDATE articles SET pageviews = ..., organic_sessions = ...,
  engaged_sessions = ..., avg_engagement_time = ... WHERE id = '<article_id>'\<close> for one
  update, seen on a mapping entry as the loader reads it afterwards: the entry of that
  article carries the written numbers, every other entry is as before.
\<close>

definition apply_update :: "pageviews_update \<Rightarrow> article_info \<Rightarrow> article_info" where
  "apply_update upd info =
     (if article_id info = upd_article_id upd
      then info\<lparr>current_pageviews := upd_pageviews upd,
                current_organic_sessions := upd_organic_sessions upd,
                current_engaged_sessions := upd_engaged_sessions upd,
                current_avg_engagement_time := written_avg (upd_avg_engagement_time upd)\<rparr>
      else info)"

text \<open>The mapping snapshot read after a list of updates has been written.\<close>

definition snapshot_after ::
  "(string \<times> article_info) list \<Rightarrow> pageviews_update list \<Rightarrow> (string \<times> article_info) list" where
  "snapshot_after url_patterns pageviews_updates =
     map (\<lambda>(p, info). (p, fold apply_update pageviews_updates info)) url_patterns"

section \<open>Properties\<close>

subsection \<open>Stripping\<close>

lemma py_lstrip_hd: "py_lstrip cs s \<noteq> [] \<Longrightarrow> hd (py_lstrip cs s) \<notin> set cs"
  unfolding py_lstrip_def using hd_dropWhile by metis

lemma py_rstrip_last: "py_rstrip cs s \<noteq> [] \<Longrightarrow> last (py_rstrip cs s) \<notin> set cs"
  unfolding py_rstrip_def using hd_dropWhile[of "\<lambda>c. c \<in> set cs" "rev s"]
  by (simp add: last_rev)

lemma py_rstrip_prefix: "prefix (py_rstrip cs s) s"
proof -
  have "rev s = takeWhile (\<lambda>c. c \<in> set cs) (rev s) @ dropWhile (\<lambda>c. c \<in> set cs) (rev s)"
    by simp
  then have "s = rev (dropWhile (\<lambda>c. c \<in> set cs) (rev s)) @ rev (takeWhile (\<lambda>c. c \<in> set cs) (rev s))"
    by (metis rev_append rev_rev_ident)
  then show ?thesis unfolding py_rstrip_def by (metis prefixI)
qed

lemma py_rstrip_hd: "py_rstrip cs s \<noteq> [] \<Longrightarrow> hd (py_rstrip cs s) = hd s"
  using py_rstrip_prefix[of cs s] by (metis hd_append2 prefix_def)

lemma py_strip_hd: "py_strip cs s \<noteq> [] \<Longrightarrow> hd (py_strip cs s) \<notin> set cs"
  unfolding py_strip_def
  using py_rstrip_hd[of cs "py_lstrip cs s"] py_lstrip_hd[of cs s] py_rstrip_prefix[of cs "py_lstrip cs s"]
  by (metis prefix_Nil)

lemma py_strip_last: "py_strip cs s \<noteq> [] \<Longrightarrow> last (py_strip cs s) \<notin> set cs"
  unfolding py_strip_def by (rule py_rstrip_last)

lemma normalize_try_shape:
  assumes "normalize_ga4_url_try lib url = Inr (Some p)"
  shows "\<exists>s. p = s @ ''/'' \<and> s \<noteq> [] \<and> sublist ''/column/'' s \<and> hd s \<noteq> CHR ''/'' \<and> last s \<noteq> CHR ''/''
           \<and> (\<exists>pr. urlparse lib url = Inr pr \<and> netloc pr = ''www.foresight.jp'' \<and> s = py_strip ''/'' (path pr))"
proof -
  from assms obtain pr where pr: "urlparse lib url = Inr pr"
    by (auto simp: normalize_ga4_url_try_def split: sum.splits)
  define s where "s = py_strip ''/'' (path pr)"
  from assms pr have nl: "netloc pr = ''www.foresight.jp''" and sub: "sublist ''/column/'' s"
    and p: "p = (if s \<noteq> [] \<and> \<not> suffix ''/'' s then s @ ''/'' else s)"
    by (auto simp: normalize_ga4_url_try_def s_def Let_def split: if_splits)
  from sub have ne: "s \<noteq> []" by auto
  from ne have h: "hd s \<noteq> CHR ''/''" and l: "last s \<noteq> CHR ''/''"
    using py_strip_hd[of "''/''" "path pr"] py_strip_last[of "''/''" "path pr"]
    by (auto simp: s_def)
  from l ne have "\<not> suffix ''/'' s" by (auto simp: suffix_def)
  with p ne have "p = s @ ''/''" by simp
  with ne sub h l pr nl s_def show ?thesis by blast
qed

subsection \<open>The normaliser is total and its outputs are well-formed keys\<close>

text \<open>
  Claim C9. \<^verbatim>\<open>normalize_ga4_url\<close> returns for every input string, without raising,
  either \<^verbatim>\<open>None\<close> or a path; every path it returns contains the segment
  \<^verbatim>\<open>/column/\<close>, ends with \<^verbatim>\<open>/\<close> and does not begin with \<^verbatim>\<open>/\<close>.
\<close>

theorem normalize_ga4_url_total_wellformed:
  "\<exists>r. normalize_ga4_url lib url = Inr r \<and>
       (case r of None \<Rightarrow> True
        | Some p \<Rightarrow> sublist ''/column/'' p \<and> suffix ''/'' p \<and> \<not> prefix ''/'' p)"
proof (cases "\<exists>p. normalize_ga4_url lib url = Inr (Some p)")
  case False
  then have "normalize_ga4_url lib url = Inr None"
    by (auto simp: normalize_ga4_url_def split: sum.splits option.splits)
  then show ?thesis by simp
next
  case True
  then obtain p where p: "normalize_ga4_url lib url = Inr (Some p)" by blast
  then have "normalize_ga4_url_try lib url = Inr (Some p)"
    by (auto simp: normalize_ga4_url_def split: if_splits sum.splits)
  from normalize_try_shape[OF this] obtain s where
    s: "p = s @ ''/''" "s \<noteq> []" "sublist ''/column/'' s" "hd s \<noteq> CHR ''/''" by blast
  have "sublist ''/column/'' p"
    using s(3) sublist_append_rightI[of s "''/''"] unfolding s(1)
    by (rule sublist_order.order_trans)
  moreover have "suffix ''/'' p" using s by (simp add: suffix_def)
  moreover have "\<not> prefix ''/'' p" using s by (cases s) (auto simp: prefix_def)
  ultimately show ?thesis using p by simp
qed

theorem normalize_ga4_url_total_wellformed_witness:
  "normalize_ga4_url ascii_lib ''https://www.foresight.jp/acct/column/intro?x=1#frag''
     = Inr (Some ''acct/column/intro/'')
   \<and> sublist ''/column/'' ''acct/column/intro/'' \<and> suffix ''/'' ''acct/column/intro/''
   \<and> \<not> prefix ''/'' ''acct/column/intro/''"
proof -
  have e: "normalize_ga4_url ascii_lib ''https://www.foresight.jp/acct/column/intro?x=1#frag''
             = Inr (Some ''acct/column/intro/'')"
    by code_simp
  show ?thesis
    using normalize_ga4_url_total_wellformed
            [of ascii_lib "''https://www.foresight.jp/acct/column/intro?x=1#frag''"]
    unfolding e by simp
qed

subsection \<open>The path component of a parsed URL\<close>

lemma set_url2: "set (fold py_remove unsafe_url_bytes_to_remove s) = set s - set unsafe_url_bytes_to_remove"
  by (auto simp: unsafe_url_bytes_to_remove_def py_remove_def)

lemma urlsplit_scheme_set: "urlsplit_scheme u = (sch, r) \<Longrightarrow> set r \<subseteq> set u"
  by (auto simp: urlsplit_scheme_def split: option.splits if_splits dest: in_set_dropD)

lemma splitnetloc_set: "splitnetloc u k = (nl, r) \<Longrightarrow> set r \<subseteq> set u"
  by (auto simp: splitnetloc_def Let_def dest: in_set_dropD)

lemma urlsplit_netloc_set: "urlsplit_netloc lib u = Inr (nl, r) \<Longrightarrow> set r \<subseteq> set u"
  by (auto simp: urlsplit_netloc_def Let_def split: if_splits prod.splits sum.splits dest: splitnetloc_set)

lemma split_hash_set:
  "(if c \<in> set u then py_split1 c u else (u, [])) = (a, b) \<Longrightarrow> set a \<subseteq> set u \<and> c \<notin> set a"
  by (auto simp: py_split1_def split: if_splits dest: set_takeWhileD)

lemma urlsplit_path_set:
  assumes "urlsplit lib url = Inr sr"
  shows "set (sr_path sr) \<subseteq> set url - bad_chars"
proof -
  define url2 where "url2 = fold py_remove unsafe_url_bytes_to_remove (py_lstrip whatwg_c0_control_or_space url)"
  obtain sch url3 where s3: "urlsplit_scheme url2 = (sch, url3)" by (cases "urlsplit_scheme url2")
  from assms s3 obtain nl url4 where s4: "urlsplit_netloc lib url3 = Inr (nl, url4)"
    by (auto simp: urlsplit_def url2_def Let_def split: sum.splits)
  obtain url5 frag where s5: "(if CHR ''#'' \<in> set url4 then py_split1 (CHR ''#'') url4 else (url4, [])) = (url5, frag)"
    by (cases "(if CHR ''#'' \<in> set url4 then py_split1 (CHR ''#'') url4 else (url4, []))")
  obtain url6 qry where s6: "(if CHR ''?'' \<in> set url5 then py_split1 (CHR ''?'') url5 else (url5, [])) = (url6, qry)"
    by (cases "(if CHR ''?'' \<in> set url5 then py_split1 (CHR ''?'') url5 else (url5, []))")
  from assms s3 s4 s5 s6 have p: "sr_path sr = url6"
    by (auto simp: urlsplit_def url2_def[symmetric] Let_def split: sum.splits)
  have "set url2 \<subseteq> set url - set unsafe_url_bytes_to_remove"
    unfolding url2_def set_url2 py_lstrip_def by (auto dest: set_dropWhileD)
  moreover have "set url3 \<subseteq> set url2" using s3 by (rule urlsplit_scheme_set)
  moreover have "set url4 \<subseteq> set url3" using s4 by (rule urlsplit_netloc_set)
  moreover have "set url5 \<subseteq> set url4 \<and> CHR ''#'' \<notin> set url5" using s5 by (rule split_hash_set)
  moreover have "set url6 \<subseteq> set url5 \<and> CHR ''?'' \<notin> set url6" using s6 by (rule split_hash_set)
  ultimately have "set url6 \<subseteq> set url - set unsafe_url_bytes_to_remove
      \<and> CHR ''#'' \<notin> set url6 \<and> CHR ''?'' \<notin> set url6"
    by blast
  then show ?thesis unfolding p bad_chars_def unsafe_url_bytes_to_remove_def by auto
qed

lemma splitparams_set: "splitparams u = (a, b) \<Longrightarrow> set a \<subseteq> set u"
  by (auto simp: splitparams_def split: if_splits option.splits dest: in_set_takeD in_set_butlastD)

lemma urlparse_path_set:
  assumes "urlparse lib url = Inr pr"
  shows "set (path pr) \<subseteq> set url - bad_chars"
proof -
  from assms obtain sr where sr: "urlsplit lib url = Inr sr"
    by (auto simp: urlparse_def split: sum.splits)
  obtain u ps where ups: "(if sr_scheme sr \<in> set uses_params \<and> CHR '';'' \<in> set (sr_path sr)
                         then splitparams (sr_path sr) else (sr_path sr, [])) = (u, ps)"
    by (cases "(if sr_scheme sr \<in> set uses_params \<and> CHR '';'' \<in> set (sr_path sr)
                         then splitparams (sr_path sr) else (sr_path sr, []))")
  from assms sr ups have "path pr = u" by (auto simp: urlparse_def)
  moreover from ups have "set u \<subseteq> set (sr_path sr)"
    by (auto split: if_splits dest: splitparams_set)
  ultimately show ?thesis using urlsplit_path_set[OF sr] by auto
qed

lemma py_strip_set: "set (py_strip cs s) \<subseteq> set s"
  unfolding py_strip_def py_rstrip_def py_lstrip_def
  by (auto dest!: set_dropWhileD)



lemma in_whatwg: "c \<in> set whatwg_c0_control_or_space \<longleftrightarrow> (of_char c :: nat) < 33"
proof
  assume "c \<in> set whatwg_c0_control_or_space"
  then obtain n where n: "n < (33::nat)" "c = char_of n"
    by (auto simp: whatwg_c0_control_or_space_def)
  then show "(of_char c :: nat) < 33" by simp
next
  assume "(of_char c :: nat) < 33"
  then have "of_char c \<in> set [0 ..< (33::nat)]" by simp
  then have "char_of (of_char c :: nat) \<in> set whatwg_c0_control_or_space"
    unfolding whatwg_c0_control_or_space_def by (metis imageI set_map)
  then show "c \<in> set whatwg_c0_control_or_space" by simp
qed

lemma lstrip_origin:
  "py_lstrip whatwg_c0_control_or_space (''https://www.foresight.jp/'' @ t) = ''https://www.foresight.jp/'' @ t"
  by (simp add: py_lstrip_def in_whatwg)

lemma py_remove_id: "c \<notin> set s \<Longrightarrow> py_remove c s = s"
  by (auto simp: py_remove_def filter_id_conv)

lemma remove_unsafe_id:
  assumes "set s \<inter> bad_chars = {}"
  shows "fold py_remove unsafe_url_bytes_to_remove s = s"
proof -
  have "CHR 0x09 \<notin> set s" "CHR 0x0D \<notin> set s" "CHR 0x0A \<notin> set s"
    using assms by (auto simp: bad_chars_def)
  then show ?thesis
    by (simp add: unsafe_url_bytes_to_remove_def py_remove_id)
qed

lemma origin_no_bad: "set ''https://www.foresight.jp/'' \<inter> bad_chars = {}"
  by (simp add: bad_chars_def)

lemma remove_unsafe_origin:
  assumes "set t \<inter> bad_chars = {}"
  shows "fold py_remove unsafe_url_bytes_to_remove (''https://www.foresight.jp/'' @ t) = ''https://www.foresight.jp/'' @ t"
proof (rule remove_unsafe_id)
  show "set (''https://www.foresight.jp/'' @ t) \<inter> bad_chars = {}"
    using assms origin_no_bad unfolding set_append by blast
qed

lemma scheme_origin:
  "urlsplit_scheme (''https://www.foresight.jp/'' @ t) = (''https'', ''//www.foresight.jp/'' @ t)"
  by (simp add: urlsplit_scheme_def py_find_def py_isascii_def ascii_isalpha_def scheme_chars_def ascii_lower_def)

lemma splitnetloc_origin:
  assumes "CHR ''?'' \<notin> set t" "CHR ''#'' \<notin> set t"
  shows "splitnetloc (''//www.foresight.jp/'' @ t) 2 = (''www.foresight.jp'', ''/'' @ t)"
  using assms
  by (simp add: splitnetloc_def py_find_from_def py_find_def numeral_2_eq_2)

lemma netloc_origin:
  assumes "CHR ''?'' \<notin> set t" "CHR ''#'' \<notin> set t"
  shows "urlsplit_netloc lib (''//www.foresight.jp/'' @ t) = Inr (''www.foresight.jp'', ''/'' @ t)"
  unfolding urlsplit_netloc_def splitnetloc_origin[OF assms]
  by simp

lemma checknetloc_origin: "checknetloc lib ''www.foresight.jp'' = Inr ()"
  by (simp add: checknetloc_def py_isascii_def)

lemma urlsplit_origin:
  assumes "set t \<inter> bad_chars = {}"
  shows "urlsplit lib (''https://www.foresight.jp/'' @ t) =
         Inr \<lparr>sr_scheme = ''https'', sr_netloc = ''www.foresight.jp'', sr_path = ''/'' @ t,
              sr_query = [], sr_fragment = []\<rparr>"
proof -
  have q: "CHR ''?'' \<notin> set t" and h: "CHR ''#'' \<notin> set t"
    using assms by (auto simp: bad_chars_def)
  show ?thesis
    unfolding urlsplit_def lstrip_origin remove_unsafe_origin[OF assms] Let_def scheme_origin
      prod.case netloc_origin[OF q h] sum.case checknetloc_origin
    using q h by simp
qed

lemma splitparams_trailing_slash: "splitparams (u @ ''/'') = (u @ ''/'', [])"
  by (simp add: splitparams_def py_rfind_def py_find_from_def py_find_def)

lemma urlparse_origin:
  assumes "set s \<inter> bad_chars = {}"
  shows "urlparse lib (''https://www.foresight.jp/'' @ s @ ''/'') =
         Inr \<lparr>scheme = ''https'', netloc = ''www.foresight.jp'', path = ''/'' @ s @ ''/'',
              params = [], query = [], fragment = []\<rparr>"
proof -
  have b: "set (s @ ''/'') \<inter> bad_chars = {}"
    using assms by (auto simp: bad_chars_def)
  have sp: "splitparams (''/'' @ s @ ''/'') = (''/'' @ s @ ''/'', [])"
    using splitparams_trailing_slash[of "''/'' @ s"] by simp
  show ?thesis
    unfolding urlparse_def urlsplit_origin[OF b] sum.case
    using sp by (simp add: Let_def)
qed

lemma py_strip_slashes:
  assumes "s \<noteq> []" "hd s \<noteq> CHR ''/''" "last s \<noteq> CHR ''/''"
  shows "py_strip ''/'' (''/'' @ s @ ''/'') = s"
proof -
  obtain a s' where s: "s = a # s'" using assms(1) by (cases s) auto
  with assms(2) have a: "a \<noteq> CHR ''/''" by simp
  have l: "py_lstrip ''/'' (''/'' @ s @ ''/'') = s @ ''/''"
    using a by (simp add: py_lstrip_def s)
  obtain b r where r: "rev s = b # r" using assms(1) by (cases "rev s") auto
  then have "last s = b" by (metis list.sel(1) hd_rev)
  with assms(3) have b: "b \<noteq> CHR ''/''" by simp
  have "py_rstrip ''/'' (s @ ''/'') = s"
    using b r by (simp add: py_rstrip_def)
  with l show ?thesis by (simp add: py_strip_def)
qed

lemma normalize_origin:
  assumes "s \<noteq> []" "hd s \<noteq> CHR ''/''" "last s \<noteq> CHR ''/''" "sublist ''/column/'' s"
    and "set s \<inter> bad_chars = {}"
  shows "normalize_ga4_url lib (''https://www.foresight.jp/'' @ s @ ''/'') = Inr (Some (s @ ''/''))"
proof -
  have ns: "\<not> suffix ''/'' s" using assms(1,3) by (auto simp: suffix_def)
  have "normalize_ga4_url_try lib (''https://www.foresight.jp/'' @ s @ ''/'') = Inr (Some (s @ ''/''))"
    unfolding normalize_ga4_url_try_def urlparse_origin[OF assms(5)] sum.case
    using assms(1,4) ns by (simp add: py_strip_slashes[OF assms(1-3), simplified] Let_def)
  then show ?thesis by (simp add: normalize_ga4_url_def)
qed

lemma length_remove_unsafe: "length (fold py_remove unsafe_url_bytes_to_remove s) \<le> length s"
proof -
  have "\<And>c u. length (py_remove c u) \<le> length u" by (simp add: py_remove_def)
  then have "length (py_remove (CHR 0x0A) (py_remove (CHR 0x0D) (py_remove (CHR 0x09) s))) \<le> length s"
    by (meson le_trans)
  then show ?thesis by (simp add: unsafe_url_bytes_to_remove_def)
qed

lemma urlsplit_scheme_length: "urlsplit_scheme u = (sch, r) \<Longrightarrow> length r \<le> length u"
  by (auto simp: urlsplit_scheme_def split: option.splits if_splits)

lemma urlsplit_netloc_length:
  "urlsplit_netloc lib u = Inr (nl, r) \<Longrightarrow> length nl + length r \<le> length u"
  by (auto simp: urlsplit_netloc_def splitnetloc_def Let_def split: if_splits sum.splits)

lemma split_length:
  "(if c \<in> set u then py_split1 c u else (u, [])) = (a, b) \<Longrightarrow> length a \<le> length u"
  by (auto simp: py_split1_def length_takeWhile_le split: if_splits)

lemma urlsplit_length:
  assumes "urlsplit lib url = Inr sr"
  shows "length (sr_netloc sr) + length (sr_path sr) \<le> length url"
proof -
  define url2 where "url2 = fold py_remove unsafe_url_bytes_to_remove (py_lstrip whatwg_c0_control_or_space url)"
  obtain sch url3 where s3: "urlsplit_scheme url2 = (sch, url3)" by (cases "urlsplit_scheme url2")
  from assms s3 obtain nl url4 where s4: "urlsplit_netloc lib url3 = Inr (nl, url4)"
    by (auto simp: urlsplit_def url2_def Let_def split: sum.splits)
  obtain url5 frag where s5: "(if CHR ''#'' \<in> set url4 then py_split1 (CHR ''#'') url4 else (url4, [])) = (url5, frag)"
    by (cases "(if CHR ''#'' \<in> set url4 then py_split1 (CHR ''#'') url4 else (url4, []))")
  obtain url6 qry where s6: "(if CHR ''?'' \<in> set url5 then py_split1 (CHR ''?'') url5 else (url5, [])) = (url6, qry)"
    by (cases "(if CHR ''?'' \<in> set url5 then py_split1 (CHR ''?'') url5 else (url5, []))")
  from assms s3 s4 s5 s6 have p: "sr_path sr = url6" "sr_netloc sr = nl"
    by (auto simp: urlsplit_def url2_def[symmetric] Let_def split: sum.splits)
  have "length (py_lstrip whatwg_c0_control_or_space url) \<le> length url"
    by (simp add: py_lstrip_def length_dropWhile_le)
  then have "length url2 \<le> length url"
    unfolding url2_def using length_remove_unsafe le_trans by blast
  moreover have "length url3 \<le> length url2" using s3 by (rule urlsplit_scheme_length)
  moreover have "length nl + length url4 \<le> length url3" using s4 by (rule urlsplit_netloc_length)
  moreover have "length url5 \<le> length url4" using s5 by (rule split_length)
  moreover have "length url6 \<le> length url5" using s6 by (rule split_length)
  ultimately show ?thesis unfolding p by linarith
qed

lemma splitparams_length: "splitparams u = (a, b) \<Longrightarrow> length a \<le> length u"
  by (auto simp: splitparams_def split: if_splits option.splits)

lemma urlparse_length:
  assumes "urlparse lib url = Inr pr"
  shows "length (netloc pr) + length (path pr) \<le> length url"
proof -
  from assms obtain sr where sr: "urlsplit lib url = Inr sr"
    by (auto simp: urlparse_def split: sum.splits)
  obtain u ps where ups: "(if sr_scheme sr \<in> set uses_params \<and> CHR '';'' \<in> set (sr_path sr)
                         then splitparams (sr_path sr) else (sr_path sr, [])) = (u, ps)"
    by (cases "(if sr_scheme sr \<in> set uses_params \<and> CHR '';'' \<in> set (sr_path sr)
                         then splitparams (sr_path sr) else (sr_path sr, []))")
  from assms sr ups have "path pr = u" "netloc pr = sr_netloc sr" by (auto simp: urlparse_def)
  moreover from ups have "length u \<le> length (sr_path sr)"
    by (auto split: if_splits dest: splitparams_length)
  ultimately show ?thesis using urlsplit_length[OF sr] by simp
qed

lemma py_strip_length: "length (py_strip cs s) \<le> length s"
proof -
  have "length (py_rstrip cs (py_lstrip cs s)) \<le> length (py_lstrip cs s)"
    unfolding py_rstrip_def using length_dropWhile_le[of _ "rev (py_lstrip cs s)"] by simp
  also have "\<dots> \<le> length s" by (simp add: py_lstrip_def length_dropWhile_le)
  finally show ?thesis by (simp add: py_strip_def)
qed

lemma normalize_shorter:
  assumes "normalize_ga4_url lib url = Inr (Some q)"
  shows "length q < length url"
proof -
  from assms have "normalize_ga4_url_try lib url = Inr (Some q)"
    by (auto simp: normalize_ga4_url_def split: if_splits sum.splits)
  from normalize_try_shape[OF this] obtain s pr where
    q: "q = s @ ''/''" and pr: "urlparse lib url = Inr pr" and nl: "netloc pr = ''www.foresight.jp''"
    and s: "s = py_strip ''/'' (path pr)" by blast
  have "length s \<le> length (path pr)" unfolding s by (rule py_strip_length)
  moreover have "length (netloc pr) = 16" unfolding nl by simp
  ultimately show ?thesis using urlparse_length[OF pr] q by simp
qed

subsection \<open>Normalising an output of the normaliser\<close>

text \<open>
  Claim C3 says that \<^verbatim>\<open>normalize_ga4_url\<close> returns its own outputs unchanged. It does
  not: an output is a relative path such as \<^verbatim>\<open>acct/column/intro/\<close>, which has no host,
  and the normaliser rejects every URL whose host is not \<^verbatim>\<open>www.foresight.jp\<close>.
\<close>

theorem normalize_ga4_url_idempotent_counterexample:
  "normalize_ga4_url ascii_lib ''https://www.foresight.jp/acct/column/intro/''
     = Inr (Some ''acct/column/intro/'')
   \<and> normalize_ga4_url ascii_lib ''acct/column/intro/'' = Inr None"
  by code_simp

text \<open>
  Claim C3, amended. For every raw URL on which \<^verbatim>\<open>normalize_ga4_url\<close> returns a
  path \<open>p\<close>, normalising \<open>p\<close> itself does not return \<open>p\<close>, and normalising \<open>p\<close>
  put back under the site's origin \<^verbatim>\<open>https://www.foresight.jp/\<close> returns \<open>p\<close> unchanged.
\<close>

theorem normalize_ga4_url_on_own_output:
  assumes "normalize_ga4_url lib u = Inr (Some p)"
  shows "normalize_ga4_url lib p \<noteq> Inr (Some p)
         \<and> normalize_ga4_url lib (''https://www.foresight.jp/'' @ p) = Inr (Some p)"
proof
  show "normalize_ga4_url lib p \<noteq> Inr (Some p)"
    using normalize_shorter[of lib p p] by auto
next
  from assms have "normalize_ga4_url_try lib u = Inr (Some p)"
    by (auto simp: normalize_ga4_url_def split: if_splits sum.splits)
  from normalize_try_shape[OF this] obtain s pr where
    p: "p = s @ ''/''" and ne: "s \<noteq> []" and sub: "sublist ''/column/'' s"
    and h: "hd s \<noteq> CHR ''/''" and l: "last s \<noteq> CHR ''/''"
    and pr: "urlparse lib u = Inr pr" and s: "s = py_strip ''/'' (path pr)" by blast
  have "set s \<subseteq> set (path pr)" unfolding s by (rule py_strip_set)
  with urlparse_path_set[OF pr] have "set s \<inter> bad_chars = {}" by auto
  from normalize_origin[OF ne h l sub this]
  show "normalize_ga4_url lib (''https://www.foresight.jp/'' @ p) = Inr (Some p)"
    unfolding p .
qed

theorem normalize_ga4_url_on_own_output_witness:
  "normalize_ga4_url ascii_lib ''https://www.foresight.jp/acct/column/intro?x=1''
     = Inr (Some ''acct/column/intro/'')
   \<and> normalize_ga4_url ascii_lib ''acct/column/intro/'' \<noteq> Inr (Some ''acct/column/intro/'')
   \<and> normalize_ga4_url ascii_lib (''https://www.foresight.jp/'' @ ''acct/column/intro/'')
     = Inr (Some ''acct/column/intro/'')"
proof -
  have e: "normalize_ga4_url ascii_lib ''https://www.foresight.jp/acct/column/intro?x=1''
             = Inr (Some ''acct/column/intro/'')"
    by code_simp
  show ?thesis
    using normalize_ga4_url_on_own_output [OF e] e by blast
qed

subsection \<open>The reconciler\<close>

lemma batches_single: "0 < n \<Longrightarrow> length xs \<le> n \<Longrightarrow> xs \<noteq> [] \<Longrightarrow> batches n xs = [xs]"
  by (subst batches.simps) (simp add: batches.simps[of n "[]"])

lemma match_paths_acc:
  "match_paths pats acc pm = acc @ match_paths pats [] pm"
proof (induction pm arbitrary: acc)
  case Nil
  show ?case by simp
next
  case (Cons x pm)
  obtain p m where x: "x = (p, m)" by (cases x)
  show ?case
    unfolding x using Cons.IH[of acc] Cons.IH[of "acc @ [make_update i m]" for i]
      Cons.IH[of "[make_update i m]" for i]
    by (simp split: option.splits)
qed

lemma match_paths_append:
  "match_paths pats [] (xs @ ys) = match_paths pats [] xs @ match_paths pats [] ys"
proof (induction xs)
  case Nil
  show ?case by simp
next
  case (Cons x xs)
  obtain p m where x: "x = (p, m)" by (cases x)
  show ?case
    unfolding x using Cons.IH match_paths_acc[of pats "[make_update i m]" for i]
    by (simp split: option.splits)
qed


lemma normalize_intro:
  "normalize_ga4_url l ''https://www.foresight.jp/acct/column/intro/'' = Inr (Some ''acct/column/intro/'')"
proof -
  have s: "sublist ''/column/'' ''acct/column/intro''" by code_simp
  have b: "set ''acct/column/intro'' \<inter> bad_chars = {}" by (simp add: bad_chars_def)
  have "normalize_ga4_url l (''https://www.foresight.jp/'' @ ''acct/column/intro'' @ ''/'')
          = Inr (Some (''acct/column/intro'' @ ''/''))"
    by (rule normalize_origin[OF _ _ _ s b]) simp_all
  then show ?thesis by simp
qed

lemma intro_path_metrics:
  "normalize_batches l [] (batches 1000 [intro_item ''https://www.foresight.jp/acct/column/intro/''])
     = Inr [(''acct/column/intro/'',
             \<lparr>pageviews = 120, organic_sessions = 40, engaged_sessions = 30,
              total_engagement_time_msec = 900000, total_sessions = 30\<rparr>)]"
proof -
  have "batches 1000 [intro_item ''https://www.foresight.jp/acct/column/intro/'']
          = [ [intro_item ''https://www.foresight.jp/acct/column/intro/''] ]"
    by (rule batches_single) simp_all
  moreover have "page_location (intro_item ''https://www.foresight.jp/acct/column/intro/'')
          = ''https://www.foresight.jp/acct/column/intro/''"
    by (simp add: intro_item_def)
  ultimately show ?thesis
    by (simp add: normalize_item_def normalize_intro add_metrics_def zero_metrics_def intro_item_def)
qed



text \<open>
  Claim C5 gives the scenario with the URL \<^verbatim>\<open>https://example.com/acct/column/intro/\<close>
  and expects an update with 120 page views and an average engagement time of 10.0. On
  that input the reconciler produces no update at all: the normaliser accepts the host
  \<^verbatim>\<open>www.foresight.jp\<close> only.
\<close>

theorem intro_scenario_counterexample:
  "match_urls_and_aggregate_optimized still_world []
     [intro_item ''https://example.com/acct/column/intro/'']
     [(''acct/column/intro/'', intro_info)] = Inr []"
  by code_simp

text \<open>
  Claim C5, amended. For the same aggregate under the host \<^verbatim>\<open>www.foresight.jp\<close> and a
  mapping entry with the pattern \<^verbatim>\<open>acct/column/intro/\<close> and 100 current page views,
  the reconciler, when the time budget is not exceeded, produces exactly one update; it has
  120 page views and the average engagement time \<open>900000 / (30 * 1000) = 30\<close> seconds.
\<close>

theorem intro_scenario:
  assumes "\<not> check_timeout w tr"
  shows "\<exists>u. match_urls_and_aggregate_optimized w tr
               [intro_item ''https://www.foresight.jp/acct/column/intro/'']
               [(''acct/column/intro/'', info\<lparr>current_pageviews := 100\<rparr>)] = Inr [u]
             \<and> upd_pageviews u = 120
             \<and> upd_avg_engagement_time u = 900000 / (30 * 1000)
             \<and> upd_avg_engagement_time u = 30"
proof -
  let ?m = "\<lparr>pageviews = 120, organic_sessions = 40, engaged_sessions = 30,
              total_engagement_time_msec = 900000, total_sessions = 30\<rparr>"
  let ?i = "info\<lparr>current_pageviews := 100\<rparr>"
  have d: "differs ?i ?m" by (simp add: differs_def)
  have "match_urls_and_aggregate_optimized w tr
               [intro_item ''https://www.foresight.jp/acct/column/intro/'']
               [(''acct/column/intro/'', ?i)] = Inr [make_update ?i ?m]"
    using assms d by (simp add: match_urls_and_aggregate_optimized_def intro_path_metrics)
  moreover have "upd_pageviews (make_update ?i ?m) = 120" by (simp add: make_update_def)
  moreover have "upd_avg_engagement_time (make_update ?i ?m) = 30"
    by (simp add: make_update_def avg_engagement_time_def)
  ultimately show ?thesis by simp
qed

theorem intro_scenario_witness:
  "\<not> check_timeout still_world []
   \<and> (\<exists>u. match_urls_and_aggregate_optimized still_world []
               [intro_item ''https://www.foresight.jp/acct/column/intro/'']
               [(''acct/column/intro/'', intro_info\<lparr>current_pageviews := 100\<rparr>)] = Inr [u]
             \<and> upd_pageviews u = 120 \<and> upd_avg_engagement_time u = 30)"
proof -
  have h: "\<not> check_timeout still_world []"
    by (simp add: check_timeout_def still_world_def TIMEOUT_SECONDS_def)
  show ?thesis using h intro_scenario[OF h, of intro_info] by blast
qed

subsection \<open>The keys of the mapping\<close>

lemma normalized_link_suffix: "suffix ''/'' (normalized_link row)"
  by (simp add: normalized_link_def Let_def suffix_def)

lemma set_normalized_link:
  "set (normalized_link row) = insert (CHR ''/'') (set (py_strip_ws (article_link row)))"
  by (auto simp: normalized_link_def Let_def suffix_def)

lemma pattern_suffix: "suffix ''/'' (pattern row)"
proof -
  obtain zs where "normalized_link row = zs @ ''/''"
    using normalized_link_suffix[of row] by (auto simp: suffix_def)
  then have "pattern row = (course_slug row @ ''/column/'' @ zs) @ ''/''"
    by (simp add: pattern_def)
  then show ?thesis unfolding suffix_def by blast
qed

lemma pattern_delimiter:
  assumes "c = CHR ''?'' \<or> c = CHR ''#''"
  shows "c \<in> set (pattern row) \<longleftrightarrow>
         c \<in> set (course_slug row) \<or> c \<in> set (py_strip_ws (article_link row))"
  using assms by (auto simp: pattern_def set_normalized_link)

lemma build_mapping_keys:
  "fst ` set (build_mapping mapping rows) = fst ` set mapping \<union> pattern ` set rows"
  by (induction rows arbitrary: mapping) (auto simp: AList.dom_update)

text \<open>
  Claim C8 says that a mapping key never contains a query string or a fragment. The loader
  strips white space from the link and ends it with a slash, and does nothing else to it:
  a link with a query string gives a key with a query string.
\<close>

theorem mapping_key_query_counterexample:
  "map fst (build_mapping [] [intro_info\<lparr>article_link := ''intro?ref=1''\<rparr>])
     = [''acct/column/intro?ref=1/'']
   \<and> CHR ''?'' \<in> set ''acct/column/intro?ref=1/''"
  by code_simp

text \<open>
  Claim C8, amended. Every key that the loader's loop puts into the mapping comes from a
  row of the query and is that row's course slug, then \<^verbatim>\<open>/column/\<close>, then the row's link
  stripped of surrounding white space and ended by a slash; the key ends with a slash; and
  it contains \<^verbatim>\<open>?\<close> (or \<^verbatim>\<open>#\<close>) exactly when the course slug or the stripped link
  does.
\<close>

theorem mapping_key_shape:
  assumes "k \<in> fst ` set (build_mapping [] rows)"
  shows "\<exists>row \<in> set rows.
           k = course_slug row @ ''/column/'' @ normalized_link row
           \<and> suffix ''/'' (normalized_link row)
           \<and> suffix ''/'' k
           \<and> (CHR ''?'' \<in> set k \<longleftrightarrow>
                CHR ''?'' \<in> set (course_slug row) \<or> CHR ''?'' \<in> set (py_strip_ws (article_link row)))
           \<and> (CHR ''#'' \<in> set k \<longleftrightarrow>
                CHR ''#'' \<in> set (course_slug row) \<or> CHR ''#'' \<in> set (py_strip_ws (article_link row)))"
proof -
  from assms obtain row where r: "row \<in> set rows" and k: "k = pattern row"
    unfolding build_mapping_keys by auto
  have "k = course_slug row @ ''/column/'' @ normalized_link row"
    unfolding k by (simp add: pattern_def)
  moreover have "suffix ''/'' (normalized_link row)" by (rule normalized_link_suffix)
  moreover have "suffix ''/'' k" unfolding k by (rule pattern_suffix)
  moreover have "CHR ''?'' \<in> set k \<longleftrightarrow>
      CHR ''?'' \<in> set (course_slug row) \<or> CHR ''?'' \<in> set (py_strip_ws (article_link row))"
    unfolding k by (rule pattern_delimiter) simp
  moreover have "CHR ''#'' \<in> set k \<longleftrightarrow>
      CHR ''#'' \<in> set (course_slug row) \<or> CHR ''#'' \<in> set (py_strip_ws (article_link row))"
    unfolding k by (rule pattern_delimiter) simp
  ultimately show ?thesis using r by blast
qed

theorem mapping_key_shape_witness:
  "''acct/column/intro/'' \<in> fst ` set (build_mapping [] [intro_info\<lparr>article_link := '' intro''\<rparr>])
   \<and> (\<exists>row \<in> set [intro_info\<lparr>article_link := '' intro''\<rparr>].
           ''acct/column/intro/'' = course_slug row @ ''/column/'' @ normalized_link row
           \<and> suffix ''/'' (normalized_link row)
           \<and> suffix ''/'' ''acct/column/intro/''
           \<and> (CHR ''?'' \<in> set ''acct/column/intro/'' \<longleftrightarrow>
                CHR ''?'' \<in> set (course_slug row) \<or> CHR ''?'' \<in> set (py_strip_ws (article_link row)))
           \<and> (CHR ''#'' \<in> set ''acct/column/intro/'' \<longleftrightarrow>
                CHR ''#'' \<in> set (course_slug row) \<or> CHR ''#'' \<in> set (py_strip_ws (article_link row))))"
proof -
  have m: "build_mapping [] [intro_info\<lparr>article_link := '' intro''\<rparr>]
             = [(''acct/column/intro/'', intro_info\<lparr>article_link := ''intro/''\<rparr>)]"
    by code_simp
  have h: "''acct/column/intro/'' \<in> fst ` set (build_mapping [] [intro_info\<lparr>article_link := '' intro''\<rparr>])"
    unfolding m by simp
  show ?thesis by (rule conjI[OF h mapping_key_shape[OF h]])
qed

subsection \<open>The requests of the fetcher\<close>

lemma poll_job_trace:
  "poll_job w tr limit c = (r, tr') \<Longrightarrow>
     \<exists>new. tr' = tr @ new \<and> set new \<subseteq> {ReadJobState, Sleep, CancelJob}"
proof (induction w tr limit c rule: poll_job.induct)
  case (1 w tr limit c)
  show ?case
  proof (cases "job_done w (length tr)")
    case True
    with "1.prems" show ?thesis by (subst (asm) poll_job.simps) auto
  next
    case nd: False
    show ?thesis
    proof (cases "c > limit")
      case True
      with nd "1.prems" show ?thesis
        by (subst (asm) poll_job.simps) (auto simp: Let_def split: if_splits)
    next
      case False
      with nd "1.prems" have "poll_job w ((tr @ [ReadJobState]) @ [Sleep]) limit (c + 1) = (r, tr')"
        by (subst (asm) poll_job.simps) (simp add: Let_def)
      from "1.IH"[OF refl nd False this] obtain new where
        "tr' = ((tr @ [ReadJobState]) @ [Sleep]) @ new" "set new \<subseteq> {ReadJobState, Sleep, CancelJob}"
        by blast
      then have "tr' = tr @ (ReadJobState # Sleep # new)
                 \<and> set (ReadJobState # Sleep # new) \<subseteq> {ReadJobState, Sleep, CancelJob}"
        by simp
      then show ?thesis by blast
    qed
  qed
qed

lemma run_polled_query_trace:
  assumes "run_polled_query w tr q limit = (r, tr')"
  shows "\<exists>new. tr' = tr @ SubmitQuery q # new
               \<and> set new \<subseteq> {ReadJobState, Sleep, CancelJob, JobResult}"
proof (cases "query_accepted w (length tr) q")
  case False
  with assms show ?thesis by (auto simp: run_polled_query_def Let_def)
next
  case True
  obtain pr ptr where p: "poll_job w (tr @ [SubmitQuery q]) limit 0 = (pr, ptr)"
    by (cases "poll_job w (tr @ [SubmitQuery q]) limit 0")
  from poll_job_trace[OF p] obtain new where
    n: "ptr = (tr @ [SubmitQuery q]) @ new" "set new \<subseteq> {ReadJobState, Sleep, CancelJob}" by blast
  show ?thesis
  proof (cases pr)
    case (Inl e)
    with assms True p have "tr' = ptr" by (simp add: run_polled_query_def Let_def)
    with n show ?thesis by auto
  next
    case (Inr u)
    with assms True p have "tr' = ptr @ [JobResult]" by (simp add: run_polled_query_def Let_def)
    with n have "tr' = tr @ SubmitQuery q # (new @ [JobResult])
                 \<and> set (new @ [JobResult]) \<subseteq> {ReadJobState, Sleep, CancelJob, JobResult}"
      by auto
    then show ?thesis by blast
  qed
qed

lemma minimal_trace:
  assumes "get_ga4_pageviews_minimal w cfg tr t = (r, tr')"
  shows "\<exists>new. tr' = tr @ new
           \<and> set new \<subseteq> {JobResult} \<union> {SubmitQuery (MinimalQuery s l) | s l. True}"
  using assms
  by (auto simp: get_ga4_pageviews_minimal_def Let_def split: option.splits if_splits sum.splits)

lemma py_take_prefix: "0 \<le> k \<Longrightarrow> prefix (py_take k xs) xs"
  by (simp add: py_take_def take_is_prefix)

lemma py_take_length: "0 \<le> k \<Longrightarrow> int (length (py_take k xs)) \<le> k"
  by (simp add: py_take_def)

text \<open>
  Claim C7. Whatever partitions are available and whatever look-back window is configured,
  the fallback tier sends, when a partition is available, one fallback query as its first
  request and no other; the tables of that query are the first
  \<open>max 3 GA4_DAYS_BACK\<close> of the available-partitions list, so they are a prefix of that
  list, and they are at most 3 or at most the configured number of look-back days.
\<close>

theorem fallback_queries_at_most:
  assumes "get_ga4_pageviews_multi_table_fallback w cfg tr available_tables = (r, tr')"
  shows "\<exists>new. tr' = tr @ new
     \<and> (available_tables \<noteq> [] \<longrightarrow> (\<exists>l rest. new = SubmitQuery (FallbackQuery
            (take (nat (max 3 (GA4_DAYS_BACK cfg))) available_tables) l) # rest))
     \<and> (\<forall>ts l. SubmitQuery (FallbackQuery ts l) \<in> set new \<longrightarrow>
            ts = take (nat (max 3 (GA4_DAYS_BACK cfg))) available_tables
            \<and> prefix ts available_tables
            \<and> (length ts \<le> 3 \<or> int (length ts) \<le> GA4_DAYS_BACK cfg))"
proof (cases "available_tables = []")
  case True
  with assms show ?thesis by (simp add: get_ga4_pageviews_multi_table_fallback_def)
next
  case ne: False
  let ?k = "max 3 (GA4_DAYS_BACK cfg)"
  let ?ts = "py_take ?k available_tables"
  let ?l = "case GA4_LIMIT cfg of None \<Rightarrow> 2000 | Some l \<Rightarrow> l"
  have ts: "?ts = take (nat ?k) available_tables" by (simp add: py_take_def)
  have pre: "prefix ?ts available_tables" by (rule py_take_prefix) simp
  have "int (length ?ts) \<le> ?k" by (rule py_take_length) simp
  then have len: "length ?ts \<le> 3 \<or> int (length ?ts) \<le> GA4_DAYS_BACK cfg"
    by linarith
  obtain qr qtr where q: "run_polled_query w tr (FallbackQuery ?ts ?l) 8 = (qr, qtr)"
    by (cases "run_polled_query w tr (FallbackQuery ?ts ?l) 8")
  from run_polled_query_trace[OF q] obtain n1 where
    n1: "qtr = tr @ SubmitQuery (FallbackQuery ?ts ?l) # n1"
        "set n1 \<subseteq> {ReadJobState, Sleep, CancelJob, JobResult}" by blast
  have "\<exists>n2. tr' = qtr @ n2
           \<and> set n2 \<subseteq> {JobResult} \<union> {SubmitQuery (MinimalQuery s l) | s l. True}"
  proof (cases qr)
    case (Inr d)
    with assms ne q have "tr' = qtr"
      by (simp add: get_ga4_pageviews_multi_table_fallback_def Let_def)
    then show ?thesis by simp
  next
    case (Inl e)
    with assms ne q have "get_ga4_pageviews_minimal w cfg qtr (Some (hd available_tables)) = (r, tr')"
      by (simp add: get_ga4_pageviews_multi_table_fallback_def Let_def)
    then show ?thesis by (rule minimal_trace)
  qed
  then obtain n2 where n2: "tr' = qtr @ n2"
     "set n2 \<subseteq> {JobResult} \<union> {SubmitQuery (MinimalQuery s l) | s l. True}" by blast
  let ?new = "SubmitQuery (FallbackQuery ?ts ?l) # n1 @ n2"
  have a: "tr' = tr @ ?new" using n1(1) n2(1) by simp
  have b: "\<forall>ts l. SubmitQuery (FallbackQuery ts l) \<in> set ?new \<longrightarrow> ts = ?ts"
    using n1(2) n2(2) by auto
  show ?thesis
    using a b ts pre len ne by (intro exI[of _ ?new]) (simp only: , blast)
qed

theorem fallback_queries_at_most_witness:
  "get_ga4_pageviews_multi_table_fallback still_world default_config []
       [''20250104'', ''20250103'', ''20250102'', ''20250101'']
     = ([], [SubmitQuery (FallbackQuery [''20250104'', ''20250103'', ''20250102'', ''20250101''] 2000),
             ReadJobState, JobResult])
   \<and> (\<exists>new. [SubmitQuery (FallbackQuery [''20250104'', ''20250103'', ''20250102'', ''20250101''] 2000),
             ReadJobState, JobResult] = [] @ new
     \<and> ([''20250104'', ''20250103'', ''20250102'', ''20250101''] \<noteq> [] \<longrightarrow>
          (\<exists>l rest. new = SubmitQuery (FallbackQuery
            (take (nat (max 3 (GA4_DAYS_BACK default_config)))
               [''20250104'', ''20250103'', ''20250102'', ''20250101'']) l) # rest))
     \<and> (\<forall>ts l. SubmitQuery (FallbackQuery ts l) \<in> set new \<longrightarrow>
            ts = take (nat (max 3 (GA4_DAYS_BACK default_config)))
                   [''20250104'', ''20250103'', ''20250102'', ''20250101'']
            \<and> prefix ts [''20250104'', ''20250103'', ''20250102'', ''20250101'']
            \<and> (length ts \<le> 3 \<or> int (length ts) \<le> GA4_DAYS_BACK default_config)))"
proof -
  have h: "get_ga4_pageviews_multi_table_fallback still_world default_config []
       [''20250104'', ''20250103'', ''20250102'', ''20250101'']
     = ([], [SubmitQuery (FallbackQuery [''20250104'', ''20250103'', ''20250102'', ''20250101''] 2000),
             ReadJobState, JobResult])"
    by code_simp
  show ?thesis by (rule conjI[OF h fallback_queries_at_most[OF h]])
qed

subsection \<open>The loader and the fetcher write nothing\<close>

lemma table_probes_trace:
  "table_probes w tr = (r, tr') \<Longrightarrow>
     \<exists>new. tr' = tr @ new \<and> set new \<subseteq> {CoursesCount, ArticlesCount}"
  by (auto simp: table_probes_def Let_def split: sum.splits list.splits)

lemma mapping_queries_trace:
  "mapping_queries w tr = (r, tr') \<Longrightarrow>
     \<exists>new. tr' = tr @ new \<and> set new \<subseteq> {BasicJoin, MappingQuery, DebugQuery}"
  by (auto simp: mapping_queries_def Let_def split: sum.splits if_splits)

lemma loader_trace:
  assumes "get_courses_articles_mapping_optimized w tr = (r, tr')"
  shows "\<exists>new. tr' = tr @ new
           \<and> set new \<subseteq> {CoursesCount, ArticlesCount, BasicJoin, MappingQuery, DebugQuery}"
proof (cases "check_timeout w tr")
  case True
  with assms show ?thesis by (simp add: get_courses_articles_mapping_optimized_def)
next
  case nt: False
  obtain pr ptr where p: "table_probes w tr = (pr, ptr)" by (cases "table_probes w tr")
  from table_probes_trace[OF p] obtain n1 where
    n1: "ptr = tr @ n1" "set n1 \<subseteq> {CoursesCount, ArticlesCount}" by blast
  show ?thesis
  proof (cases "pr = Inr True")
    case False
    with assms nt p have "tr' = ptr"
      by (auto simp: get_courses_articles_mapping_optimized_def split: sum.splits bool.splits)
    with n1 show ?thesis by auto
  next
    case True
    obtain mr mtr where m: "mapping_queries w ptr = (mr, mtr)" by (cases "mapping_queries w ptr")
    from mapping_queries_trace[OF m] obtain n2 where
      n2: "mtr = ptr @ n2" "set n2 \<subseteq> {BasicJoin, MappingQuery, DebugQuery}" by blast
    from assms nt p True m have "tr' = mtr"
      by (auto simp: get_courses_articles_mapping_optimized_def split: sum.splits)
    with n1 n2 have "tr' = tr @ (n1 @ n2)
       \<and> set (n1 @ n2) \<subseteq> {CoursesCount, ArticlesCount, BasicJoin, MappingQuery, DebugQuery}"
      by auto
    then show ?thesis by blast
  qed
qed

lemma loader_no_analytics:
  assumes "get_courses_articles_mapping_optimized w tr = (r, tr')"
  shows "filter is_analytics_request tr' = filter is_analytics_request tr"
    and "filter is_update_request tr' = filter is_update_request tr"
proof -
  from loader_trace[OF assms] obtain new where
    n: "tr' = tr @ new"
       "set new \<subseteq> {CoursesCount, ArticlesCount, BasicJoin, MappingQuery, DebugQuery}" by blast
  have "\<forall>x \<in> set new. \<not> is_analytics_request x \<and> \<not> is_update_request x"
    using n(2) by auto
  then have "filter is_analytics_request new = [] \<and> filter is_update_request new = []"
    by (simp add: filter_empty_conv)
  then show "filter is_analytics_request tr' = filter is_analytics_request tr"
    and "filter is_update_request tr' = filter is_update_request tr"
    using n(1) by simp_all
qed

lemma probe_tables_trace:
  "probe_tables w tr av days = (r, tr') \<Longrightarrow>
     \<exists>new. tr' = tr @ new \<and> (\<forall>x \<in> set new. \<not> is_update_request x)"
proof (induction days arbitrary: tr av)
  case Nil
  then show ?case by simp
next
  case (Cons i days)
  let ?t = "tr @ [GetTable (table_suffix w i)]"
  from Cons.prems obtain av' where "probe_tables w ?t av' days = (r, tr')"
    by (auto simp: Let_def split: if_splits)
  from Cons.IH[OF this] obtain new where
    "tr' = ?t @ new" "\<forall>x \<in> set new. \<not> is_update_request x" by blast
  then have "tr' = tr @ (GetTable (table_suffix w i) # new)
             \<and> (\<forall>x \<in> set (GetTable (table_suffix w i) # new). \<not> is_update_request x)"
    by simp
  then show ?case by blast
qed

lemma fallback_no_update:
  assumes "get_ga4_pageviews_multi_table_fallback w cfg tr av = (r, tr')"
  shows "\<exists>new. tr' = tr @ new \<and> (\<forall>x \<in> set new. \<not> is_update_request x)"
proof (cases "av = []")
  case True
  with assms show ?thesis by (simp add: get_ga4_pageviews_multi_table_fallback_def)
next
  case ne: False
  let ?q = "FallbackQuery (py_take (max 3 (GA4_DAYS_BACK cfg)) av)
              (case GA4_LIMIT cfg of None \<Rightarrow> 2000 | Some l \<Rightarrow> l)"
  obtain qr qtr where q: "run_polled_query w tr ?q 8 = (qr, qtr)"
    by (cases "run_polled_query w tr ?q 8")
  from run_polled_query_trace[OF q] obtain n1 where
    n1: "qtr = tr @ SubmitQuery ?q # n1"
        "set n1 \<subseteq> {ReadJobState, Sleep, CancelJob, JobResult}" by blast
  have "\<exists>n2. tr' = qtr @ n2
           \<and> set n2 \<subseteq> {JobResult} \<union> {SubmitQuery (MinimalQuery s l) | s l. True}"
  proof (cases qr)
    case (Inr d)
    with assms ne q have "tr' = qtr"
      by (simp add: get_ga4_pageviews_multi_table_fallback_def Let_def)
    then show ?thesis by simp
  next
    case (Inl e)
    with assms ne q have "get_ga4_pageviews_minimal w cfg qtr (Some (hd av)) = (r, tr')"
      by (simp add: get_ga4_pageviews_multi_table_fallback_def Let_def)
    then show ?thesis by (rule minimal_trace)
  qed
  then obtain n2 where n2: "tr' = qtr @ n2"
     "set n2 \<subseteq> {JobResult} \<union> {SubmitQuery (MinimalQuery s l) | s l. True}" by blast
  have "tr' = tr @ (SubmitQuery ?q # n1 @ n2)" using n1(1) n2(1) by simp
  moreover have "\<forall>x \<in> set (SubmitQuery ?q # n1 @ n2). \<not> is_update_request x"
    using n1(2) n2(2) by auto
  ultimately show ?thesis by blast
qed

lemma fetcher_no_update:
  assumes "get_ga4_pageviews_optimized w cfg tr d = (r, tr')"
  shows "filter is_update_request tr' = filter is_update_request tr"
proof -
  have "\<exists>new. tr' = tr @ new \<and> (\<forall>x \<in> set new. \<not> is_update_request x)"
  proof (cases "check_timeout w tr")
    case True
    with assms show ?thesis by (simp add: get_ga4_pageviews_optimized_def)
  next
    case nt: False
    obtain av tr1 where a: "get_available_ga4_tables w tr (d + 2) = (av, tr1)"
      by (cases "get_available_ga4_tables w tr (d + 2)")
    from a obtain n1 where n1: "tr1 = tr @ n1" "\<forall>x \<in> set n1. \<not> is_update_request x"
      unfolding get_available_ga4_tables_def using probe_tables_trace by blast
    show ?thesis
    proof (cases "av = [] \<or> py_take d av = []")
      case True
      with assms nt a have "tr' = tr1"
        by (auto simp: get_ga4_pageviews_optimized_def Let_def split: if_splits)
      with n1 show ?thesis by blast
    next
      case False
      let ?q = "StandardQuery (py_take d av) (GA4_LIMIT cfg)"
      obtain qr qtr where q: "run_polled_query w tr1 ?q 10 = (qr, qtr)"
        by (cases "run_polled_query w tr1 ?q 10")
      from run_polled_query_trace[OF q] obtain n2 where
        n2: "qtr = tr1 @ SubmitQuery ?q # n2"
            "set n2 \<subseteq> {ReadJobState, Sleep, CancelJob, JobResult}" by blast
      have "\<exists>n3. tr' = qtr @ n3 \<and> (\<forall>x \<in> set n3. \<not> is_update_request x)"
      proof (cases qr)
        case (Inr rows)
        with assms nt a False q have "tr' = qtr"
          by (auto simp: get_ga4_pageviews_optimized_def Let_def split: if_splits)
        then show ?thesis by simp
      next
        case (Inl e)
        obtain fr ftr where f: "get_ga4_pageviews_multi_table_fallback w cfg qtr
                                  (py_take (GA4_DAYS_BACK cfg) av) = (fr, ftr)"
          by (cases "get_ga4_pageviews_multi_table_fallback w cfg qtr (py_take (GA4_DAYS_BACK cfg) av)")
        with assms nt a False q Inl have "tr' = ftr"
          by (auto simp: get_ga4_pageviews_optimized_def Let_def split: if_splits)
        with fallback_no_update[OF f] show ?thesis by simp
      qed
      then obtain n3 where n3: "tr' = qtr @ n3" "\<forall>x \<in> set n3. \<not> is_update_request x" by blast
      have "tr' = tr @ (n1 @ SubmitQuery ?q # n2 @ n3)" using n1(1) n2(1) n3(1) by simp
      moreover have "\<forall>x \<in> set (n1 @ SubmitQuery ?q # n2 @ n3). \<not> is_update_request x"
        using n1(2) n2(2) n3(2) by auto
      ultimately show ?thesis by blast
    qed
  qed
  then obtain new where "tr' = tr @ new" "\<forall>x \<in> set new. \<not> is_update_request x" by blast
  then show ?thesis by (simp add: filter_empty_conv)
qed

subsection \<open>The pipeline with an empty mapping\<close>

lemma zero_probe_empty_mapping:
  assumes "\<not> check_timeout w tr" "probe_reports_zero w tr"
  shows "\<exists>tr1. get_courses_articles_mapping_optimized w tr = (Inr [], tr1)"
proof -
  from assms(2) obtain c cs where c: "courses_count w (length tr) = Inr (c # cs)"
    by (auto simp: probe_reports_zero_def split: sum.splits list.splits)
  obtain pr ptr where p: "table_probes w tr = (pr, ptr)" by (cases "table_probes w tr")
  have "pr \<noteq> Inr True"
    using assms(2) c p
    by (auto simp: probe_reports_zero_def table_probes_def Let_def split: sum.splits list.splits)
  with assms(1) p show ?thesis
    by (auto simp: get_courses_articles_mapping_optimized_def split: sum.splits bool.splits)
qed

text \<open>
  Claim C6 says that with an empty mapping the pipeline ends with the status
  \<^verbatim>\<open>failed\<close> and \<^verbatim>\<open>mappedArticles = 0\<close>. The dictionary returned on this path has the
  keys \<^verbatim>\<open>status\<close> and \<^verbatim>\<open>error\<close> only: it reports no number of mapped articles.
\<close>

theorem empty_mapping_counterexample:
  "status (fst (sync_pageviews_optimized empty_courses_world default_config [])) = ''failed''
   \<and> mapped_articles (fst (sync_pageviews_optimized empty_courses_world default_config [])) = None
   \<and> mapped_articles (fst (sync_pageviews_optimized empty_courses_world default_config []))
       \<noteq> Some 0"
  by code_simp

text \<open>
  Claim C6, amended. Whenever the mapping load returns an empty map, the pipeline ends
  with the result \<^verbatim>\<open>{'status': 'failed', 'error': 'No mapping data'}\<close>, which carries no
  count of mapped articles, having sent no request to the analytics warehouse beyond those
  sent before; and the mapping load returns an empty map in particular when the time
  budget is not exceeded and one of the two existence probes reports zero rows.
\<close>

theorem empty_mapping_fails:
  "(get_courses_articles_mapping_optimized w tr = (Inr [], tr1) \<longrightarrow>
      sync_pageviews_optimized w cfg tr = (failed_result ''No mapping data'', tr1)
      \<and> status (failed_result ''No mapping data'') = ''failed''
      \<and> error (failed_result ''No mapping data'') = Some (Message ''No mapping data'')
      \<and> mapped_articles (failed_result ''No mapping data'') = None
      \<and> filter is_analytics_request tr1 = filter is_analytics_request tr)
   \<and> (\<not> check_timeout w tr \<and> probe_reports_zero w tr \<longrightarrow>
        (\<exists>tr2. get_courses_articles_mapping_optimized w tr = (Inr [], tr2)))"
proof (intro conjI impI)
  assume a: "get_courses_articles_mapping_optimized w tr = (Inr [], tr1)"
  then show "sync_pageviews_optimized w cfg tr = (failed_result ''No mapping data'', tr1)"
    by (simp add: sync_pageviews_optimized_def)
  show "filter is_analytics_request tr1 = filter is_analytics_request tr"
    using a by (rule loader_no_analytics(1))
next
  show "status (failed_result ''No mapping data'') = ''failed''"
    by (simp add: failed_result_def)
  show "error (failed_result ''No mapping data'') = Some (Message ''No mapping data'')"
    by (simp add: failed_result_def)
  show "mapped_articles (failed_result ''No mapping data'') = None"
    by (simp add: failed_result_def)
next
  assume "\<not> check_timeout w tr \<and> probe_reports_zero w tr"
  then show "\<exists>tr2. get_courses_articles_mapping_optimized w tr = (Inr [], tr2)"
    using zero_probe_empty_mapping by blast
qed

theorem empty_mapping_fails_witness:
  "\<not> check_timeout empty_courses_world [] \<and> probe_reports_zero empty_courses_world []
   \<and> get_courses_articles_mapping_optimized empty_courses_world []
       = (Inr [], [CoursesCount, ArticlesCount])
   \<and> sync_pageviews_optimized empty_courses_world default_config []
       = (failed_result ''No mapping data'', [CoursesCount, ArticlesCount])
   \<and> filter is_analytics_request [CoursesCount, ArticlesCount] = filter is_analytics_request []"
proof -
  have t: "\<not> check_timeout empty_courses_world []" by code_simp
  have z: "probe_reports_zero empty_courses_world []" by code_simp
  have m: "get_courses_articles_mapping_optimized empty_courses_world []
             = (Inr [], [CoursesCount, ArticlesCount])" by code_simp
  show ?thesis
    using t z m empty_mapping_fails[of empty_courses_world "[]" "[CoursesCount, ArticlesCount]"
                                       default_config]
    by blast
qed

subsection \<open>The pipeline with an empty list of updates\<close>

text \<open>
  Claim C10. If the mapping and the fetched data are not empty and the reconciler returns
  an empty list of updates, the pipeline sends no update statement to the content
  warehouse (the update requests made so far are those made before the run) and ends with
  the status \<^verbatim>\<open>success\<close>, no error and \<^verbatim>\<open>updated_records = 0\<close>.
\<close>

theorem empty_delta_success:
  assumes "get_courses_articles_mapping_optimized w tr = (Inr mapping, tr1)"
    and "mapping \<noteq> []"
    and "get_ga4_pageviews_optimized w cfg tr1 (GA4_DAYS_BACK cfg) = (Inr ga4_data, tr2)"
    and "ga4_data \<noteq> []"
    and "match_urls_and_aggregate_optimized w tr2 ga4_data mapping = Inr []"
  shows "\<exists>r. sync_pageviews_optimized w cfg tr = (r, tr2)
             \<and> status r = ''success'' \<and> error r = None \<and> updated_records r = Some 0
             \<and> total_ga4_records r = Some (length ga4_data)
             \<and> mapped_articles r = Some (length mapping)
             \<and> filter is_update_request tr2 = filter is_update_request tr"
proof -
  have "filter is_update_request tr1 = filter is_update_request tr"
    using assms(1) by (rule loader_no_analytics(2))
  moreover have "filter is_update_request tr2 = filter is_update_request tr1"
    using assms(3) by (rule fetcher_no_update)
  moreover have "sync_pageviews_optimized w cfg tr =
        (\<lparr>status = ''success'', error = None, total_ga4_records = Some (length ga4_data),
          mapped_articles = Some (length mapping), updated_records = Some 0,
          execution_time_seconds = Some (elapsed w (length tr2))\<rparr>, tr2)"
    using assms by (simp add: sync_pageviews_optimized_def sync_update_step_def)
  ultimately show ?thesis by simp
qed

theorem empty_delta_success_witness:
  "get_courses_articles_mapping_optimized settled_world []
     = (Inr [(''acct/column/intro/'', settled_info)],
        [CoursesCount, ArticlesCount, BasicJoin, MappingQuery])
   \<and> [(''acct/column/intro/'', settled_info)] \<noteq> []
   \<and> get_ga4_pageviews_optimized settled_world default_config
        [CoursesCount, ArticlesCount, BasicJoin, MappingQuery] (GA4_DAYS_BACK default_config)
      = (Inr [intro_item ''https://www.foresight.jp/acct/column/intro/''], settled_fetch_trace)
   \<and> [intro_item ''https://www.foresight.jp/acct/column/intro/''] \<noteq> []
   \<and> match_urls_and_aggregate_optimized settled_world settled_fetch_trace
        [intro_item ''https://www.foresight.jp/acct/column/intro/'']
        [(''acct/column/intro/'', settled_info)] = Inr []
   \<and> (\<exists>r. sync_pageviews_optimized settled_world default_config [] = (r, settled_fetch_trace)
          \<and> status r = ''success'' \<and> error r = None \<and> updated_records r = Some 0
          \<and> total_ga4_records r = Some (length [intro_item ''https://www.foresight.jp/acct/column/intro/''])
          \<and> mapped_articles r = Some (length [(''acct/column/intro/'', settled_info)])
          \<and> filter is_update_request settled_fetch_trace = filter is_update_request [])"
proof -
  have a: "get_courses_articles_mapping_optimized settled_world []
     = (Inr [(''acct/column/intro/'', settled_info)],
        [CoursesCount, ArticlesCount, BasicJoin, MappingQuery])"
    by code_simp
  have b: "[(''acct/column/intro/'', settled_info)] \<noteq> []" by simp
  have c: "get_ga4_pageviews_optimized settled_world default_config
        [CoursesCount, ArticlesCount, BasicJoin, MappingQuery] (GA4_DAYS_BACK default_config)
      = (Inr [intro_item ''https://www.foresight.jp/acct/column/intro/''], settled_fetch_trace)"
    by code_simp
  have d: "[intro_item ''https://www.foresight.jp/acct/column/intro/''] \<noteq> []" by simp
  have e: "match_urls_and_aggregate_optimized settled_world settled_fetch_trace
        [intro_item ''https://www.foresight.jp/acct/column/intro/'']
        [(''acct/column/intro/'', settled_info)] = Inr []"
    by code_simp
  show ?thesis
    using a b c d e empty_delta_success[OF a b c d e] by blast
qed

subsection \<open>The dispatcher\<close>

lemma individual_loop_within_budget:
  assumes "\<forall>n. elapsed w n \<le> TIMEOUT_SECONDS"
  shows "\<exists>c. update_pageviews_individual_loop w tr c0 us = (c, tr @ map IndividualUpdate us)"
proof (induction us arbitrary: tr c0)
  case Nil
  show ?case by simp
next
  case (Cons u us)
  have nt: "\<not> check_timeout w tr" using assms by (simp add: check_timeout_def not_less)
  from Cons.IH[of "tr @ [IndividualUpdate u]"] nt show ?case
    by (simp add: Let_def)
qed

lemma update_batches_within_budget:
  assumes "\<forall>n. elapsed w n \<le> TIMEOUT_SECONDS"
  shows "\<exists>t. update_batches w tr t0 bs = (t, tr @ dispatch_requests w (length tr) bs)"
proof (induction bs arbitrary: tr t0)
  case Nil
  show ?case by simp
next
  case (Cons b bs)
  show ?case
  proof (cases "bulk_update_ok w (length tr) b")
    case True
    with Cons.IH[of "tr @ [BulkUpdate b]" "t0 + length b"] show ?thesis
      by (simp add: Let_def)
  next
    case False
    obtain c where c: "update_pageviews_individual_optimized w (tr @ [BulkUpdate b]) b
                         = (c, (tr @ [BulkUpdate b]) @ map IndividualUpdate b)"
      unfolding update_pageviews_individual_optimized_def
      using individual_loop_within_budget[OF assms] by blast
    from Cons.IH[of "(tr @ [BulkUpdate b]) @ map IndividualUpdate b" "t0 + length b"]
    show ?thesis using False c by (simp add: Let_def)
  qed
qed

text \<open>
  Claim C2 says that the dispatcher returns the number of updates applied with success.
  The function returns nothing, and the total that it logs counts every update of a batch
  whose bulk statement raised, applied or not: below it logs 2 where 1 update is applied.
\<close>

theorem dispatcher_count_counterexample:
  "update_pageviews_batch_optimized rejecting_world [] [good_update, bad_update]
     = (Inr (Some 2), rejecting_trace)
   \<and> applied rejecting_world rejecting_trace = [good_update]
   \<and> length (applied rejecting_world rejecting_trace) = 1"
  by code_simp

text \<open>
  Claim C2, amended. Once its guard on the time budget has passed, the dispatcher does
  not raise, whatever statements fail. When the time budget is never exceeded, its
  requests are, batch by batch, one bulk statement and, if that statement raises, one
  individual statement for each update of the batch in order, whether or not the
  individual statements before it raised.
\<close>

theorem dispatcher_partial_failures:
  assumes "\<not> check_timeout w tr"
  shows "\<exists>logged tr'. update_pageviews_batch_optimized w tr pageviews_updates = (Inr logged, tr')
           \<and> ((\<forall>n. elapsed w n \<le> TIMEOUT_SECONDS) \<longrightarrow>
                tr' = tr @ dispatch_requests w (length tr)
                             (batches BULK_INSERT_BATCH_SIZE pageviews_updates))"
proof (cases "pageviews_updates = []")
  case True
  then have "batches BULK_INSERT_BATCH_SIZE pageviews_updates = []"
    by (simp add: batches.simps)
  with True show ?thesis by (simp add: update_pageviews_batch_optimized_def)
next
  case False
  obtain t tr1 where u: "update_batches w tr 0 (batches BULK_INSERT_BATCH_SIZE pageviews_updates)
                           = (t, tr1)"
    by (cases "update_batches w tr 0 (batches BULK_INSERT_BATCH_SIZE pageviews_updates)")
  have r: "update_pageviews_batch_optimized w tr pageviews_updates = (Inr (Some t), tr1)"
    using False assms u by (simp add: update_pageviews_batch_optimized_def)
  have "(\<forall>n. elapsed w n \<le> TIMEOUT_SECONDS) \<longrightarrow>
          tr1 = tr @ dispatch_requests w (length tr)
                       (batches BULK_INSERT_BATCH_SIZE pageviews_updates)"
  proof
    assume "\<forall>n. elapsed w n \<le> TIMEOUT_SECONDS"
    from update_batches_within_budget[OF this, of tr 0 "batches BULK_INSERT_BATCH_SIZE pageviews_updates"] u
    show "tr1 = tr @ dispatch_requests w (length tr)
                       (batches BULK_INSERT_BATCH_SIZE pageviews_updates)"
      by simp
  qed
  with r show ?thesis by blast
qed

theorem dispatcher_partial_failures_witness:
  "\<not> check_timeout rejecting_world []
   \<and> (\<forall>n. elapsed rejecting_world n \<le> TIMEOUT_SECONDS)
   \<and> (\<exists>logged. update_pageviews_batch_optimized rejecting_world [] [good_update, bad_update]
                  = (Inr logged, rejecting_trace))
   \<and> rejecting_trace = [] @ dispatch_requests rejecting_world (length ([] :: trace))
                               (batches BULK_INSERT_BATCH_SIZE [good_update, bad_update])"
proof -
  have h: "\<not> check_timeout rejecting_world []" by code_simp
  have b: "\<forall>n. elapsed rejecting_world n \<le> TIMEOUT_SECONDS"
    by (simp add: rejecting_world_def still_world_def TIMEOUT_SECONDS_def)
  have e: "update_pageviews_batch_optimized rejecting_world [] [good_update, bad_update]
             = (Inr (Some 2), rejecting_trace)"
    by code_simp
  from dispatcher_partial_failures[OF h, of "[good_update, bad_update]"] b
  obtain logged tr' where
    r: "update_pageviews_batch_optimized rejecting_world [] [good_update, bad_update] = (Inr logged, tr')"
    and t: "tr' = [] @ dispatch_requests rejecting_world (length ([] :: trace))
                        (batches BULK_INSERT_BATCH_SIZE [good_update, bad_update])"
    by blast
  from r e have "tr' = rejecting_trace" by simp
  with t have t': "rejecting_trace = [] @ dispatch_requests rejecting_world (length ([] :: trace))
                        (batches BULK_INSERT_BATCH_SIZE [good_update, bad_update])"
    by (simp only:)
  show ?thesis
    by (intro conjI exI[of _ "Some 2"]) (rule h b e t')+
qed

subsection \<open>Reconciling twice\<close>

lemma written_avg_close: "\<bar>written_avg x - x\<bar> \<le> 1 / 20000"
proof -
  define y where "y = x * 10000"
  define f where "f = \<lfloor>y\<rfloor>"
  define r where "r = y - of_int f"
  have r0: "0 \<le> r" and r1: "r < 1"
    unfolding r_def f_def by linarith+
  define k where "k = (if r < 1 / 2 then f else if r > 1 / 2 then f + 1
                       else if even f then f else f + 1)"
  have w: "written_avg x = of_int k / 10000"
    unfolding written_avg_def Let_def k_def r_def f_def y_def by simp
  have "\<bar>of_int k - y\<bar> \<le> 1 / 2"
  proof -
    have y: "y = of_int f + r" unfolding r_def by simp
    show ?thesis unfolding k_def y using r0 r1 by (auto simp: abs_le_iff)
  qed
  then have "\<bar>of_int k - x * 10000\<bar> \<le> 1 / 2" unfolding y_def .
  then have "\<bar>(of_int k - x * 10000) / 10000\<bar> \<le> (1 / 2) / 10000"
    by (simp add: abs_le_iff)
  then show ?thesis unfolding w by (simp add: diff_divide_distrib)
qed

lemma normalize_item_distinct:
  "normalize_item l pm item = Inr pm' \<Longrightarrow> distinct (map fst pm) \<Longrightarrow> distinct (map fst pm')"
  by (auto simp: normalize_item_def Let_def AList.distinct_update
           split: sum.splits option.splits if_splits)

lemma normalize_batch_distinct:
  "normalize_batch l pm items = Inr pm' \<Longrightarrow> distinct (map fst pm) \<Longrightarrow> distinct (map fst pm')"
proof (induction items arbitrary: pm)
  case Nil
  then show ?case by simp
next
  case (Cons item items)
  from Cons.prems(1) obtain pm1 where
    a: "normalize_item l pm item = Inr pm1" and b: "normalize_batch l pm1 items = Inr pm'"
    by (auto split: sum.splits)
  from normalize_item_distinct[OF a Cons.prems(2)] Cons.IH[OF b] show ?case by blast
qed

lemma normalize_batches_distinct:
  "normalize_batches l pm bs = Inr pm' \<Longrightarrow> distinct (map fst pm) \<Longrightarrow> distinct (map fst pm')"
proof (induction bs arbitrary: pm)
  case Nil
  then show ?case by simp
next
  case (Cons b bs)
  from Cons.prems(1) obtain pm1 where
    a: "normalize_batch l pm b = Inr pm1" and b: "normalize_batches l pm1 bs = Inr pm'"
    by (auto split: sum.splits)
  from normalize_batch_distinct[OF a Cons.prems(2)] Cons.IH[OF b] show ?case by blast
qed

lemma match_paths_set:
  "u \<in> set (match_paths pats [] pm) \<longleftrightarrow>
     (\<exists>p m info. (p, m) \<in> set pm \<and> map_of pats p = Some info \<and> differs info m
                  \<and> u = make_update info m)"
proof (induction pm)
  case Nil
  show ?case by simp
next
  case (Cons x pm)
  obtain p0 m0 where x: "x = (p0, m0)" by (cases x)
  define A where "A = set (match_paths pats [] [x])"
  define B where "B = set (match_paths pats [] pm)"
  have "match_paths pats [] ([x] @ pm) = match_paths pats [] [x] @ match_paths pats [] pm"
    by (rule match_paths_append)
  then have AB: "set (match_paths pats [] (x # pm)) = A \<union> B"
    unfolding A_def B_def by simp
  have a: "u \<in> A \<longleftrightarrow>
      (\<exists>info. map_of pats p0 = Some info \<and> differs info m0 \<and> u = make_update info m0)"
    unfolding A_def x by (auto split: option.splits)
  have b: "u \<in> B \<longleftrightarrow>
     (\<exists>p m info. (p, m) \<in> set pm \<and> map_of pats p = Some info \<and> differs info m
                  \<and> u = make_update info m)"
    unfolding B_def by (rule Cons.IH)
  have c: "\<And>p m. (p, m) \<in> set (x # pm) \<longleftrightarrow> (p = p0 \<and> m = m0) \<or> (p, m) \<in> set pm"
    unfolding x by auto
  show ?case unfolding AB Un_iff a b c by blast
qed

lemma match_paths_empty:
  "match_paths pats [] pm = [] \<longleftrightarrow>
     (\<forall>p m info. (p, m) \<in> set pm \<longrightarrow> map_of pats p = Some info \<longrightarrow> \<not> differs info m)"
proof -
  have "match_paths pats [] pm = [] \<longleftrightarrow> (\<forall>u. u \<notin> set (match_paths pats [] pm))"
    by (cases "match_paths pats [] pm") auto
  then show ?thesis unfolding match_paths_set by blast
qed

lemma apply_update_id [simp]: "article_id (apply_update u info) = article_id info"
  by (simp add: apply_update_def)

lemma apply_update_other:
  "upd_article_id u \<noteq> article_id info \<Longrightarrow> apply_update u info = info"
  by (auto simp: apply_update_def)

lemma apply_update_twice: "apply_update u (apply_update u info) = apply_update u info"
  by (simp add: apply_update_def)

lemma fold_apply_update:
  "(\<forall>u \<in> set ups. upd_article_id u = article_id info \<longrightarrow> u = u0) \<Longrightarrow>
     fold apply_update ups (apply_update u0 info) = apply_update u0 info
     \<and> fold apply_update ups info = (if u0 \<in> set ups then apply_update u0 info else info)"
proof (induction ups)
  case Nil
  show ?case by simp
next
  case (Cons u ups)
  have rest: "\<forall>u \<in> set ups. upd_article_id u = article_id info \<longrightarrow> u = u0"
    using Cons.prems by simp
  note IH = Cons.IH[OF rest]
  have u: "u = u0 \<or> upd_article_id u \<noteq> article_id info" using Cons.prems by auto
  have 1: "fold apply_update (u # ups) (apply_update u0 info) = apply_update u0 info"
  proof -
    from u have "apply_update u (apply_update u0 info) = apply_update u0 info"
      by (auto simp: apply_update_twice apply_update_other)
    with IH show ?thesis by simp
  qed
  have 2: "fold apply_update (u # ups) info
             = (if u0 \<in> set (u # ups) then apply_update u0 info else info)"
  proof (cases "u = u0")
    case True
    with IH show ?thesis by simp
  next
    case False
    with u have "apply_update u info = info" by (simp add: apply_update_other)
    with IH False show ?thesis by auto
  qed
  from 1 2 show ?case by blast
qed

lemma settled_not_differs: "\<not> differs (apply_update (make_update info m) info) m"
proof -
  have "\<bar>written_avg (avg_engagement_time m) - avg_engagement_time m\<bar> \<le> 1 / 20000"
    by (rule written_avg_close)
  then have "\<not> \<bar>written_avg (avg_engagement_time m) - avg_engagement_time m\<bar> > 1 / 10"
    by linarith
  then show ?thesis
    by (simp add: differs_def apply_update_def make_update_def Let_def)
qed

lemma map_of_snapshot_after:
  "map_of (snapshot_after pats ups) p = map_option (fold apply_update ups) (map_of pats p)"
  unfolding snapshot_after_def by (induction pats) auto

text \<open>
  Claim C1 says that a second reconciliation with identical raw metrics and an identical
  mapping snapshot yields no update. The reconciler is a function of the raw metrics and
  the snapshot: with both unchanged the second run yields the updates of the first.
\<close>

theorem reconcile_twice_counterexample:
  "match_urls_and_aggregate_optimized still_world []
     [intro_item ''https://www.foresight.jp/acct/column/intro/'']
     [(''acct/column/intro/'', intro_info)] = Inr [good_update]
   \<and> match_urls_and_aggregate_optimized still_world [BulkUpdate [good_update]]
     [intro_item ''https://www.foresight.jp/acct/column/intro/'']
     [(''acct/column/intro/'', intro_info)] = Inr [good_update]"
  by code_simp

text \<open>
  Claim C1, amended. Let a first reconciliation return a list of updates and let a second
  one run within the time budget on identical raw metrics. With the identical mapping
  snapshot it returns the same updates. With the snapshot read after those updates have
  been written it returns no update, provided no two mapping entries share an article
  identifier.
\<close>

theorem reconcile_after_update:
  assumes ids: "distinct (map (\<lambda>(p, info). article_id info) url_patterns)"
    and first: "match_urls_and_aggregate_optimized w tr ga4_data url_patterns = Inr pageviews_updates"
    and budget: "\<not> check_timeout w tr'"
  shows "match_urls_and_aggregate_optimized w tr' ga4_data url_patterns = Inr pageviews_updates
         \<and> match_urls_and_aggregate_optimized w tr' ga4_data
               (snapshot_after url_patterns pageviews_updates) = Inr []"
proof
  show "match_urls_and_aggregate_optimized w tr' ga4_data url_patterns = Inr pageviews_updates"
    using first budget
    by (auto simp: match_urls_and_aggregate_optimized_def split: if_splits)
next
  from first obtain pm where
    pm: "normalize_batches (stdlib w) [] (batches 1000 ga4_data) = Inr pm"
    and ups: "pageviews_updates = match_paths url_patterns [] pm"
    by (auto simp: match_urls_and_aggregate_optimized_def split: if_splits sum.splits)
  have dpm: "distinct (map fst pm)"
    using normalize_batches_distinct[OF pm] by simp
  have "match_paths (snapshot_after url_patterns pageviews_updates) [] pm = []"
    unfolding match_paths_empty
  proof (intro allI impI)
    fix p m info'
    assume in_pm: "(p, m) \<in> set pm"
      and look: "map_of (snapshot_after url_patterns pageviews_updates) p = Some info'"
    from look obtain info where info: "map_of url_patterns p = Some info"
      and info': "info' = fold apply_update pageviews_updates info"
      unfolding map_of_snapshot_after by auto
    have uniq: "\<forall>u \<in> set pageviews_updates.
                  upd_article_id u = article_id info \<longrightarrow> u = make_update info m"
    proof (intro ballI impI)
      fix u assume "u \<in> set pageviews_updates" and same: "upd_article_id u = article_id info"
      then obtain p2 m2 info2 where p2: "(p2, m2) \<in> set pm"
        and i2: "map_of url_patterns p2 = Some info2" and u: "u = make_update info2 m2"
        unfolding ups match_paths_set by blast
      have e1: "(p, info) \<in> set url_patterns" using info by (rule map_of_SomeD)
      have e2: "(p2, info2) \<in> set url_patterns" using i2 by (rule map_of_SomeD)
      have "article_id info2 = article_id info" using same u by (simp add: make_update_def)
      then have "(\<lambda>(p, info). article_id info) (p2, info2) = (\<lambda>(p, info). article_id info) (p, info)"
        by simp
      with ids e1 e2 have "(p2, info2) = (p, info)"
        using inj_on_eq_iff[OF iffD1[OF distinct_map, THEN conjunct2]] by metis
      then have "p2 = p" "info2 = info" by simp_all
      with p2 in_pm dpm have "m2 = m" by (metis eq_key_imp_eq_value)
      with u \<open>info2 = info\<close> show "u = make_update info m" by simp
    qed
    have inlist: "make_update info m \<in> set pageviews_updates \<longleftrightarrow> differs info m"
    proof
      assume "differs info m"
      with in_pm info show "make_update info m \<in> set pageviews_updates"
        unfolding ups match_paths_set by blast
    next
      assume "make_update info m \<in> set pageviews_updates"
      then obtain p2 m2 info2 where p2: "(p2, m2) \<in> set pm"
        and i2: "map_of url_patterns p2 = Some info2" and d2: "differs info2 m2"
        and u: "make_update info m = make_update info2 m2"
        unfolding ups match_paths_set by blast
      have e1: "(p, info) \<in> set url_patterns" using info by (rule map_of_SomeD)
      have e2: "(p2, info2) \<in> set url_patterns" using i2 by (rule map_of_SomeD)
      from u have "upd_article_id (make_update info m) = upd_article_id (make_update info2 m2)"
        by simp
      then have "article_id info2 = article_id info" by (simp add: make_update_def)
      then have "(\<lambda>(p, info). article_id info) (p2, info2) = (\<lambda>(p, info). article_id info) (p, info)"
        by simp
      with ids e1 e2 have "(p2, info2) = (p, info)"
        using inj_on_eq_iff[OF iffD1[OF distinct_map, THEN conjunct2]] by metis
      then have "p2 = p" "info2 = info" by simp_all
      with p2 in_pm dpm have "m2 = m" by (metis eq_key_imp_eq_value)
      with d2 \<open>info2 = info\<close> show "differs info m" by simp
    qed
    have "info' = (if differs info m then apply_update (make_update info m) info else info)"
      unfolding info' conjunct2[OF fold_apply_update[OF uniq]] inlist ..
    then show "\<not> differs info' m" using settled_not_differs[of info m] by auto
  qed
  with pm budget show "match_urls_and_aggregate_optimized w tr' ga4_data
               (snapshot_after url_patterns pageviews_updates) = Inr []"
    by (simp add: match_urls_and_aggregate_optimized_def)
qed

theorem reconcile_after_update_witness:
  "distinct (map (\<lambda>(p, info). article_id info) [(''acct/column/intro/'', intro_info)])
   \<and> match_urls_and_aggregate_optimized still_world []
        [intro_item ''https://www.foresight.jp/acct/column/intro/'']
        [(''acct/column/intro/'', intro_info)] = Inr [good_update]
   \<and> \<not> check_timeout still_world [BulkUpdate [good_update]]
   \<and> match_urls_and_aggregate_optimized still_world [BulkUpdate [good_update]]
        [intro_item ''https://www.foresight.jp/acct/column/intro/'']
        (snapshot_after [(''acct/column/intro/'', intro_info)] [good_update]) = Inr []"
proof -
  have a: "distinct (map (\<lambda>(p, info). article_id info) [(''acct/column/intro/'', intro_info)])"
    by simp
  have b: "match_urls_and_aggregate_optimized still_world []
        [intro_item ''https://www.foresight.jp/acct/column/intro/'']
        [(''acct/column/intro/'', intro_info)] = Inr [good_update]"
    by code_simp
  have c: "\<not> check_timeout still_world [BulkUpdate [good_update]]"
    by (simp add: check_timeout_def still_world_def TIMEOUT_SECONDS_def)
  show ?thesis
    using a b c reconcile_after_update[OF a b c] by blast
qed

end
